theory Spec2Isabelle
  imports Main "HOL-Library.AList" "HOL-Library.List_Lexorder" "HOL-Library.Multiset"
begin

section \<open>JavaScript values used by the scripts\<close>

subsection \<open>Strings\<close>

text \<open>
  A JavaScript string is a sequence of UTF-16 code units. The emoji keys are built by
  \<^verbatim>\<open>String.fromCodePoint\<close> and by concatenation with the skin tone modifiers, so the
  code units are kept as they are: a string is a list of naturals below \<open>65536\<close>. The
  function \<open>js\<close> writes an ASCII literal of the source as such a list.
\<close>

type_synonym jsstring = "nat list"

definition js :: "string \<Rightarrow> jsstring" where
  "js s = map of_char s"

text \<open>
  \<^verbatim>\<open>trim\<close> and \<^verbatim>\<open>parseInt\<close> skip the same characters: the white space and the line
  terminators of the language (TAB, LF, VT, FF, CR, SP, NBSP, U+1680, U+2000 to U+200A,
  U+2028, U+2029, U+202F, U+205F, U+3000 and U+FEFF).
\<close>

definition is_space :: "nat \<Rightarrow> bool" where
  "is_space c \<longleftrightarrow>
     c = 9 \<or> c = 10 \<or> c = 11 \<or> c = 12 \<or> c = 13 \<or> c = 32 \<or> c = 160 \<or> c = 5760 \<or>
     (8192 \<le> c \<and> c \<le> 8202) \<or> c = 8232 \<or> c = 8233 \<or> c = 8239 \<or> c = 8287 \<or>
     c = 12288 \<or> c = 65279"

definition trimStart :: "jsstring \<Rightarrow> jsstring" where
  "trimStart s = dropWhile is_space s"

definition trim :: "jsstring \<Rightarrow> jsstring" where
  "trim s = rev (dropWhile is_space (rev (dropWhile is_space s)))"

text \<open>
  \<^verbatim>\<open>s.split(' ')\<close>: the pieces between single spaces. Two spaces in a row give an empty
  piece, and the empty string gives one empty piece.
\<close>

fun split_space :: "jsstring \<Rightarrow> jsstring list" where
  "split_space [] = [[]]"
| "split_space (c # cs) =
     (if c = 32 then [] # split_space cs
      else (case split_space cs of
              [] \<Rightarrow> [[c]]
            | t # ts \<Rightarrow> (c # t) # ts))"

text \<open>\<^verbatim>\<open>s.includes(k)\<close>: \<open>k\<close> occurs in \<open>s\<close> as a contiguous run of code units.\<close>

fun starts_with :: "jsstring \<Rightarrow> jsstring \<Rightarrow> bool" where
  "starts_with [] s = True"
| "starts_with (k # ks) [] = False"
| "starts_with (k # ks) (c # cs) = (k = c \<and> starts_with ks cs)"

fun js_includes :: "jsstring \<Rightarrow> jsstring \<Rightarrow> bool" where
  "js_includes [] k = (k = [])"
| "js_includes (c # cs) k = (starts_with k (c # cs) \<or> js_includes cs k)"

text \<open>
  \<^verbatim>\<open>toLowerCase\<close> follows the Unicode tables. The scripts only search the lower-cased
  name for keywords made of the letters a to z and the space, so what matters is where
  those code units come from: from themselves, from A to Z, from U+0130 (its lower case
  is \<open>i\<close> followed by U+0307) and from U+212A (the Kelvin sign, lower case \<open>k\<close>). The
  accented capitals of Latin-1 are written out as well. Every other character lower-cases
  to characters outside ASCII and is left in place here, which no keyword search can tell
  apart.
\<close>

definition lower_unit :: "nat \<Rightarrow> jsstring" where
  "lower_unit c =
     (if 65 \<le> c \<and> c \<le> 90 then [c + 32]
      else if 192 \<le> c \<and> c \<le> 222 \<and> c \<noteq> 215 then [c + 32]
      else if c = 304 then [105, 775]
      else if c = 8490 then [107]
      else if c = 8491 then [229]
      else [c])"

definition toLowerCase :: "jsstring \<Rightarrow> jsstring" where
  "toLowerCase s = concat (map lower_unit s)"

subsection \<open>Numbers read from text\<close>

text \<open>
  \<^verbatim>\<open>parseInt(s, radix)\<close> for the radices 10 and 16: leading white space is skipped, one
  sign is read, for radix 16 a prefix \<^verbatim>\<open>0x\<close> or \<^verbatim>\<open>0X\<close> is dropped, and then the longest
  run of digits is read; what follows the digits is ignored. With no digit the result is
  \<^verbatim>\<open>NaN\<close>, here \<open>None\<close>. \<open>Some n\<close> is the integer the digits denote, before it is
  rounded to a double.
\<close>

definition digit_val :: "nat \<Rightarrow> nat \<Rightarrow> nat option" where
  "digit_val radix c =
     (let v = (if 48 \<le> c \<and> c \<le> 57 then Some (c - 48)
               else if 97 \<le> c \<and> c \<le> 122 then Some (c - 87)
               else if 65 \<le> c \<and> c \<le> 90 then Some (c - 55)
               else None)
      in case v of None \<Rightarrow> None | Some d \<Rightarrow> if d < radix then Some d else None)"

fun read_digits :: "nat \<Rightarrow> nat \<Rightarrow> jsstring \<Rightarrow> nat" where
  "read_digits radix acc [] = acc"
| "read_digits radix acc (c # cs) =
     (case digit_val radix c of
        None \<Rightarrow> acc
      | Some d \<Rightarrow> read_digits radix (acc * radix + d) cs)"

definition strip_sign :: "jsstring \<Rightarrow> bool \<times> jsstring" where
  "strip_sign s =
     (case s of
        [] \<Rightarrow> (False, [])
      | c # cs \<Rightarrow> if c = 45 then (True, cs) else if c = 43 then (False, cs) else (False, s))"

definition strip_hex_prefix :: "jsstring \<Rightarrow> jsstring" where
  "strip_hex_prefix s =
     (case s of
        a # b # cs \<Rightarrow> if a = 48 \<and> (b = 120 \<or> b = 88) then cs else s
      | _ \<Rightarrow> s)"

definition parseInt :: "jsstring \<Rightarrow> nat \<Rightarrow> int option" where
  "parseInt s radix =
     (let (neg, s1) = strip_sign (trimStart s);
          s2 = (if radix = 16 then strip_hex_prefix s1 else s1)
      in case s2 of
           [] \<Rightarrow> None
         | c # cs \<Rightarrow>
             (case digit_val radix c of
                None \<Rightarrow> None
              | Some d \<Rightarrow>
                  let n = int (read_digits radix 0 s2)
                  in Some (if neg then - n else n)))"

text \<open>
  A number of the program is a double. The embedding follows it while it is \<^verbatim>\<open>NaN\<close> or
  an integer of magnitude at most \<open>2^53\<close>, where doubles are exact and so are their sums
  and differences. Any other double (a larger integer after rounding, an infinity, a
  fraction) is \<open>Untracked\<close>: the embedding says nothing about its value, not even
  whether it is \<^verbatim>\<open>NaN\<close>.
\<close>

datatype jsnum = NaN | Num int | Untracked

definition to_double :: "int \<Rightarrow> jsnum" where
  "to_double n = (if \<bar>n\<bar> \<le> 2 ^ 53 then Num n else Untracked)"

definition num_of_parse :: "int option \<Rightarrow> jsnum" where
  "num_of_parse p = (case p of None \<Rightarrow> NaN | Some n \<Rightarrow> to_double n)"

fun js_sub :: "jsnum \<Rightarrow> jsnum \<Rightarrow> jsnum" where
  "js_sub NaN y = NaN"
| "js_sub x NaN = NaN"
| "js_sub (Num a) (Num b) = to_double (a - b)"
| "js_sub x y = Untracked"

fun js_add :: "jsnum \<Rightarrow> jsnum \<Rightarrow> jsnum" where
  "js_add NaN y = NaN"
| "js_add x NaN = NaN"
| "js_add (Num a) (Num b) = to_double (a + b)"
| "js_add x y = Untracked"

text \<open>An absent property reads as \<^verbatim>\<open>undefined\<close>, which arithmetic turns into \<^verbatim>\<open>NaN\<close>.\<close>

definition to_number :: "jsnum option \<Rightarrow> jsnum" where
  "to_number v = (case v of None \<Rightarrow> NaN | Some x \<Rightarrow> x)"

subsection \<open>Code points\<close>

datatype error = RangeError | TypeError

text \<open>
  \<^verbatim>\<open>String.fromCodePoint\<close> raises a \<^verbatim>\<open>RangeError\<close> for an argument that is \<^verbatim>\<open>NaN\<close>,
  negative or above U+10FFFF. A code point above U+FFFF becomes a surrogate pair.
\<close>

definition utf16 :: "nat \<Rightarrow> jsstring" where
  "utf16 cp =
     (if cp < 65536 then [cp]
      else [55296 + (cp - 65536) div 1024, 56320 + (cp - 65536) mod 1024])"

fun fromCodePoint :: "int option list \<Rightarrow> error + jsstring" where
  "fromCodePoint [] = Inr []"
| "fromCodePoint (None # ps) = Inl RangeError"
| "fromCodePoint (Some n # ps) =
     (if n < 0 \<or> 1114111 < n then Inl RangeError
      else (case fromCodePoint ps of
              Inl e \<Rightarrow> Inl e
            | Inr s \<Rightarrow> Inr (utf16 (nat n) @ s)))"

subsection \<open>Objects\<close>

text \<open>
  The scripts use plain objects as dictionaries keyed by strings that come from the
  input pages. An object is its list of own properties in creation order. Three things
  of the language are visible to the scripts and are written out:
  \<^item> assigning to the key \<^verbatim>\<open>__proto__\<close> calls the inherited setter and creates no own
    property;
  \<^item> \<^verbatim>\<open>Object.entries\<close>, \<^verbatim>\<open>Object.keys\<close> and \<^verbatim>\<open>Object.values\<close> list the keys that are
    array indices (canonical decimal numerals below \<open>2^32 - 1\<close>) first, in numeric
    order, and the other keys after them in creation order;
  \<^item> reading \<^verbatim>\<open>obj[k]\<close> finds the properties inherited from \<^verbatim>\<open>Object.prototype\<close> when
    \<open>k\<close> is not an own key.
\<close>

type_synonym 'v jsobj = "(jsstring \<times> 'v) list"

definition proto_key :: jsstring where
  "proto_key = js ''__proto__''"

definition obj_put :: "jsstring \<Rightarrow> 'v \<Rightarrow> 'v jsobj \<Rightarrow> 'v jsobj" where
  "obj_put k v obj = (if k = proto_key then obj else AList.update k v obj)"

definition is_digit :: "nat \<Rightarrow> bool" where
  "is_digit c \<longleftrightarrow> 48 \<le> c \<and> c \<le> 57"

definition array_index :: "jsstring \<Rightarrow> nat option" where
  "array_index k =
     (if k \<noteq> [] \<and> list_all is_digit k \<and> (k = [48] \<or> take 1 k \<noteq> [48]) \<and>
         read_digits 10 0 k < 4294967295
      then Some (read_digits 10 0 k) else None)"

definition Object_entries :: "'v jsobj \<Rightarrow> (jsstring \<times> 'v) list" where
  "Object_entries obj =
     sort_key (\<lambda>(k, v). case array_index k of Some i \<Rightarrow> i | None \<Rightarrow> 0)
       (filter (\<lambda>(k, v). array_index k \<noteq> None) obj)
     @ filter (\<lambda>(k, v). array_index k = None) obj"

definition Object_keys :: "'v jsobj \<Rightarrow> jsstring list" where
  "Object_keys obj = map fst (Object_entries obj)"


definition object_prototype_keys :: "jsstring list" where
  "object_prototype_keys =
     map js [''constructor'', ''__defineGetter__'', ''__defineSetter__'', ''hasOwnProperty'',
             ''__lookupGetter__'', ''__lookupSetter__'', ''isPrototypeOf'',
             ''propertyIsEnumerable'', ''toString'', ''valueOf'', ''__proto__'',
             ''toLocaleString'']"

section \<open>The emoji table: parseEmojiData\<close>

text \<open>
  The repository holds the script twice: \<^verbatim>\<open>src/unnamed/part_000\<close> reads the pages with
  cheerio, \<^verbatim>\<open>src/script/generate-emoji-counts.js\<close> with fast-html-parser. Both have a
  \<^verbatim>\<open>parseEmojiData\<close>, a \<^verbatim>\<open>parseEmojiCounts\<close> and a \<^verbatim>\<open>generateGroupData\<close>; the functions
  below take the file as their first argument where the two differ.
\<close>

datatype script_file = Part_000 | Generate_emoji_counts

text \<open>
  The HTML parser is outside the embedding. A table row reaches \<^verbatim>\<open>parseEmojiData\<close> as the
  text of its cells of class \<^verbatim>\<open>code\<close>, \<^verbatim>\<open>name\<close> and \<^verbatim>\<open>group\<close>, each \<open>None\<close> when the row
  has no such cell.
\<close>

record row =
  codeCell :: "jsstring option"
  nameCell :: "jsstring option"
  groupCell :: "jsstring option"

text \<open>
  The records stored in \<^verbatim>\<open>emojiData\<close>. A property the script does not write is \<open>None\<close>.
  An element of \<open>code_points\<close> is a result of \<^verbatim>\<open>parseInt\<close> or of \<^verbatim>\<open>codePointAt\<close>.
\<close>

record emoji_record =
  name :: jsstring
  group :: jsstring
  skin_tone_support :: bool
  dual_skin_tone_support :: "bool option"
  is_variant :: "bool option"
  base_emoji :: "jsstring option"
  code_points :: "int option list option"

definition SKIN_TONE_MODIFIERS :: "jsstring list" where
  "SKIN_TONE_MODIFIERS =
     [utf16 127995, utf16 127996, utf16 127997, utf16 127998, utf16 127999]"

text \<open>\<^verbatim>\<open>getSkinToneName\<close> is only ever called with a modifier of the list above.\<close>

definition getSkinToneName :: "jsstring \<Rightarrow> jsstring" where
  "getSkinToneName modifier =
     (case map_of
        [(utf16 127995, js ''light skin tone''),
         (utf16 127996, js ''medium-light skin tone''),
         (utf16 127997, js ''medium skin tone''),
         (utf16 127998, js ''medium-dark skin tone''),
         (utf16 127999, js ''dark skin tone'')] modifier of
        Some n \<Rightarrow> n
      | None \<Rightarrow> js ''unknown skin tone'')"

definition codePointAt0 :: "jsstring \<Rightarrow> int option" where
  "codePointAt0 s =
     (case s of
        [] \<Rightarrow> None
      | a # rest \<Rightarrow>
          (case rest of
             b # _ \<Rightarrow>
               if 55296 \<le> a \<and> a \<le> 56319 \<and> 56320 \<le> b \<and> b \<le> 57343
               then Some (int (65536 + (a - 55296) * 1024 + (b - 56320)))
               else Some (int a)
           | [] \<Rightarrow> Some (int a)))"

definition skin_keywords :: "script_file \<Rightarrow> jsstring list" where
  "skin_keywords f =
     (case f of
        Part_000 \<Rightarrow>
          map js [''hand'', ''person'', ''people'', ''face'', ''gesture'', ''walking'',
                  ''standing'', ''kneeling'', ''running'', ''standing'', ''sitting'']
      | Generate_emoji_counts \<Rightarrow> map js [''hand'', ''person'', ''people''])"

definition dual_keywords :: "script_file \<Rightarrow> jsstring list" where
  "dual_keywords f =
     (case f of
        Part_000 \<Rightarrow>
          map js [''handshake'', ''people holding hands'', ''couple'', ''family'', ''kiss'',
                  ''couple with heart'']
      | Generate_emoji_counts \<Rightarrow> map js [''handshake'', ''people holding hands''])"

definition hasSkinToneSupport :: "script_file \<Rightarrow> jsstring \<Rightarrow> bool" where
  "hasSkinToneSupport f nm = list_ex (js_includes (toLowerCase nm)) (skin_keywords f)"

definition hasDualSkinToneSupport :: "script_file \<Rightarrow> jsstring \<Rightarrow> bool" where
  "hasDualSkinToneSupport f nm = list_ex (js_includes (toLowerCase nm)) (dual_keywords f)"

text \<open>Only \<^verbatim>\<open>part_000\<close> stores the code points.\<close>

definition stored_points :: "script_file \<Rightarrow> int option list \<Rightarrow> int option list option" where
  "stored_points f cps = (case f of Part_000 \<Rightarrow> Some cps | Generate_emoji_counts \<Rightarrow> None)"

definition base_record ::
  "script_file \<Rightarrow> int option list \<Rightarrow> jsstring \<Rightarrow> jsstring \<Rightarrow> emoji_record" where
  "base_record f codePoints nm grp =
     \<lparr>name = nm, group = grp,
      skin_tone_support = hasSkinToneSupport f nm,
      dual_skin_tone_support = Some (hasDualSkinToneSupport f nm),
      is_variant = None, base_emoji = None,
      code_points = stored_points f codePoints\<rparr>"

definition single_variant ::
  "script_file \<Rightarrow> jsstring \<Rightarrow> int option list \<Rightarrow> jsstring \<Rightarrow> jsstring \<Rightarrow> jsstring
     \<Rightarrow> jsstring \<times> emoji_record" where
  "single_variant f emoji codePoints nm grp modifier =
     (emoji @ modifier,
      \<lparr>name = nm @ js '' ('' @ getSkinToneName modifier @ js '')'', group = grp,
       skin_tone_support = True, dual_skin_tone_support = None,
       is_variant = Some True, base_emoji = Some emoji,
       code_points = stored_points f (codePoints @ [codePointAt0 modifier])\<rparr>)"

definition dual_variant ::
  "script_file \<Rightarrow> jsstring \<Rightarrow> int option list \<Rightarrow> jsstring \<Rightarrow> jsstring \<Rightarrow> jsstring
     \<Rightarrow> jsstring \<Rightarrow> jsstring \<times> emoji_record" where
  "dual_variant f emoji codePoints nm grp modifier1 modifier2 =
     (emoji @ modifier1 @ modifier2,
      \<lparr>name = nm @ js '' ('' @ getSkinToneName modifier1 @ js '' and ''
                @ getSkinToneName modifier2 @ js '')'',
       group = grp,
       skin_tone_support = True, dual_skin_tone_support = Some True,
       is_variant = Some True, base_emoji = Some emoji,
       code_points =
         stored_points f (codePoints @ [codePointAt0 modifier1, codePointAt0 modifier2])\<rparr>)"

text \<open>
  The assignments to \<^verbatim>\<open>emojiData\<close> that the loop body makes for one row, in the order in
  which it makes them: the base record, then the five single-tone variants when the name
  is skin-tone-capable, then inside the same branch the twenty-five dual-tone variants
  when the name is dual-capable too.
\<close>

definition single_writes ::
  "script_file \<Rightarrow> jsstring \<Rightarrow> int option list \<Rightarrow> jsstring \<Rightarrow> jsstring
     \<Rightarrow> (jsstring \<times> emoji_record) list" where
  "single_writes f emoji codePoints nm grp =
     map (single_variant f emoji codePoints nm grp) SKIN_TONE_MODIFIERS"

definition dual_writes ::
  "script_file \<Rightarrow> jsstring \<Rightarrow> int option list \<Rightarrow> jsstring \<Rightarrow> jsstring
     \<Rightarrow> (jsstring \<times> emoji_record) list" where
  "dual_writes f emoji codePoints nm grp =
     concat (map (\<lambda>modifier1.
                    map (dual_variant f emoji codePoints nm grp modifier1) SKIN_TONE_MODIFIERS)
                 SKIN_TONE_MODIFIERS)"

definition variant_writes ::
  "script_file \<Rightarrow> jsstring \<Rightarrow> int option list \<Rightarrow> jsstring \<Rightarrow> jsstring
     \<Rightarrow> (jsstring \<times> emoji_record) list" where
  "variant_writes f emoji codePoints nm grp =
     (if hasSkinToneSupport f nm
      then single_writes f emoji codePoints nm grp
           @ (if hasDualSkinToneSupport f nm then dual_writes f emoji codePoints nm grp
              else [])
      else [])"

definition row_writes ::
  "script_file \<Rightarrow> jsstring \<Rightarrow> int option list \<Rightarrow> jsstring \<Rightarrow> jsstring
     \<Rightarrow> (jsstring \<times> emoji_record) list" where
  "row_writes f emoji codePoints nm grp =
     (emoji, base_record f codePoints nm grp) # variant_writes f emoji codePoints nm grp"

definition assign_all :: "(jsstring \<times> 'v) list \<Rightarrow> 'v jsobj \<Rightarrow> 'v jsobj" where
  "assign_all ws obj = fold (\<lambda>(k, v). obj_put k v) ws obj"

text \<open>
  One row. A row without one of the three cells is skipped. Otherwise the code text is
  trimmed, split at spaces and each piece read by \<^verbatim>\<open>parseInt(cp, 16)\<close>;
  \<^verbatim>\<open>String.fromCodePoint\<close> raises when a piece gave \<^verbatim>\<open>NaN\<close> or a value that is no code
  point, and nothing catches it inside \<^verbatim>\<open>parseEmojiData\<close>.
\<close>

definition parse_code :: "jsstring \<Rightarrow> int option list" where
  "parse_code c = map (\<lambda>cp. parseInt cp 16) (split_space (trim c))"

definition parse_row ::
  "script_file \<Rightarrow> row \<Rightarrow> emoji_record jsobj \<Rightarrow> error + emoji_record jsobj" where
  "parse_row f r emojiData =
     (case codeCell r of
        None \<Rightarrow> Inr emojiData
      | Some c \<Rightarrow>
     (case nameCell r of
        None \<Rightarrow> Inr emojiData
      | Some n \<Rightarrow>
     (case groupCell r of
        None \<Rightarrow> Inr emojiData
      | Some g \<Rightarrow>
          (case fromCodePoint (parse_code c) of
             Inl e \<Rightarrow> Inl e
           | Inr emoji \<Rightarrow>
               Inr (assign_all (row_writes f emoji (parse_code c) (trim n) (trim g))
                      emojiData)))))"

fun parse_rows ::
  "script_file \<Rightarrow> row list \<Rightarrow> emoji_record jsobj \<Rightarrow> error + emoji_record jsobj" where
  "parse_rows f [] emojiData = Inr emojiData"
| "parse_rows f (r # rs) emojiData =
     (case parse_row f r emojiData of
        Inl e \<Rightarrow> Inl e
      | Inr emojiData' \<Rightarrow> parse_rows f rs emojiData')"

definition parseEmojiData :: "script_file \<Rightarrow> row list \<Rightarrow> error + emoji_record jsobj" where
  "parseEmojiData f rows = parse_rows f rows []"

section \<open>The counts table: parseEmojiCounts\<close>

text \<open>
  The statistics object. \<^verbatim>\<open>total_with_variations\<close> and \<^verbatim>\<open>skin_tone_variations\<close> are
  properties that \<^verbatim>\<open>part_000\<close> adds when it meets their rows; until then they are absent.
\<close>

record stats =
  total_without_skin_tone_variations :: jsnum
  component :: jsnum
  stats_dual_skin_tone_support :: jsnum
  groups :: "jsnum jsobj"
  total_with_variations :: "jsnum option"
  skin_tone_variations :: "jsnum option"

definition initial_stats :: stats where
  "initial_stats =
     \<lparr>total_without_skin_tone_variations = Num 0, component = Num 0,
      stats_dual_skin_tone_support = Num 0, groups = [],
      total_with_variations = None, skin_tone_variations = None\<rparr>"

subsection \<open>\<^verbatim>\<open>part_000\<close>\<close>

text \<open>
  A row of the counts page is the list of the texts of its \<^verbatim>\<open>td\<close> cells. Wrapping a
  missing cell and asking for its text gives the empty string.
\<close>

definition cell_text :: "jsstring list \<Rightarrow> nat \<Rightarrow> jsstring" where
  "cell_text cells i = (if i < length cells then cells ! i else [])"

definition counts_step :: "stats \<Rightarrow> jsstring list \<Rightarrow> stats" where
  "counts_step st cells =
     (let category = trim (cell_text cells 0);
          count = parseInt (trim (cell_text cells 1)) 10
      in if category = js ''Component'' then st\<lparr>component := num_of_parse count\<rparr>
         else if category = js ''Total''
           then st\<lparr>total_with_variations := Some (num_of_parse count)\<rparr>
         else if category = js ''With skin tone variations''
           then st\<lparr>skin_tone_variations := Some (num_of_parse count)\<rparr>
         else if category \<noteq> js ''Group'' \<and> count \<noteq> None
           then st\<lparr>groups := obj_put category (num_of_parse count) (groups st)\<rparr>
         else st)"

fun counts_loop :: "stats \<Rightarrow> jsstring list list \<Rightarrow> stats" where
  "counts_loop st [] = st"
| "counts_loop st (cells # rest) = counts_loop (counts_step st cells) rest"

definition parseEmojiCounts_part_000 :: "jsstring list list \<Rightarrow> stats" where
  "parseEmojiCounts_part_000 rows =
     (let st = counts_loop initial_stats (drop 1 rows)
      in st\<lparr>total_without_skin_tone_variations :=
               js_sub (js_sub (to_number (total_with_variations st))
                              (to_number (skin_tone_variations st)))
                      (component st)\<rparr>)"

subsection \<open>\<^verbatim>\<open>generate-emoji-counts.js\<close>\<close>

text \<open>
  Here a row is the list of the texts of its child nodes. \<^verbatim>\<open>Number(text)\<close> is followed
  for the empty text and for a signed run of decimal digits; every other text gives a
  double the embedding does not track. Reading a property of \<^verbatim>\<open>undefined\<close> (a row or a
  node that is not there) raises a \<^verbatim>\<open>TypeError\<close>.
\<close>

definition Number_of :: "jsstring \<Rightarrow> jsnum" where
  "Number_of s =
     (let t = trim s
      in if t = [] then Num 0
         else (case strip_sign t of
                 (neg, ds) \<Rightarrow>
                   if ds \<noteq> [] \<and> list_all is_digit ds
                   then to_double (if neg then - int (read_digits 10 0 ds)
                                   else int (read_digits 10 0 ds))
                   else Untracked))"

definition group_columns :: "jsstring list" where
  "group_columns =
     map js [''Smileys & Emotion'', ''People & Body'', ''Animals & Nature'', ''Food & Drink'',
             ''Travel & Places'', ''Activities'', ''Objects'', ''Symbols'', ''Flags'']"

definition skinToneMarker :: jsstring where
  "skinToneMarker = utf16 127999"

fun header_loop :: "jsstring list \<Rightarrow> jsstring list \<Rightarrow> nat \<Rightarrow> stats \<Rightarrow> error + stats" where
  "header_loop [] totalCells i st = Inr st"
| "header_loop (column # cols) totalCells i st =
     (if i < length totalCells
      then (let count = Number_of (totalCells ! i)
            in header_loop cols totalCells (Suc i)
                 (if column \<in> set group_columns
                    then st\<lparr>groups := obj_put column count (groups st)\<rparr>
                  else if column = js ''Component'' then st\<lparr>component := count\<rparr>
                  else st))
      else Inl TypeError)"

fun marker_counts :: "jsstring list list \<Rightarrow> error + jsnum list" where
  "marker_counts [] = Inr []"
| "marker_counts (r # rs) =
     (case r of
        [] \<Rightarrow> Inl TypeError
      | first # _ \<Rightarrow>
          (case marker_counts rs of
             Inl e \<Rightarrow> Inl e
           | Inr counts \<Rightarrow>
               Inr (if js_includes first skinToneMarker then Number_of (last r) # counts
                    else counts)))"

definition parseEmojiCounts_script :: "jsstring list list \<Rightarrow> error + stats" where
  "parseEmojiCounts_script allRows =
     (case allRows of
        [] \<Rightarrow> Inl TypeError
      | theadCells # _ \<Rightarrow>
          (let totalCells = last allRows
           in if totalCells = [] then Inl TypeError
              else
                (case header_loop theadCells totalCells 0
                        (initial_stats\<lparr>total_without_skin_tone_variations :=
                                         Number_of (last totalCells)\<rparr>) of
                   Inl e \<Rightarrow> Inl e
                 | Inr st \<Rightarrow>
                     (case marker_counts allRows of
                        Inl e \<Rightarrow> Inl e
                      | Inr counts \<Rightarrow>
                          (let skinToneVariations = fold (\<lambda>b a. js_add a b) counts (Num 0)
                           in Inr (st\<lparr>total_without_skin_tone_variations :=
                                         js_sub (js_sub (total_without_skin_tone_variations st)
                                                        skinToneVariations)
                                                (component st),
                                       stats_dual_skin_tone_support := Num 13\<rparr>))))))"

definition parseEmojiCounts :: "script_file \<Rightarrow> jsstring list list \<Rightarrow> error + stats" where
  "parseEmojiCounts f rows =
     (case f of
        Part_000 \<Rightarrow> Inr (parseEmojiCounts_part_000 rows)
      | Generate_emoji_counts \<Rightarrow> parseEmojiCounts_script rows)"

section \<open>Grouping and ordering\<close>

text \<open>
  \<^verbatim>\<open>generateGroupData\<close> is the same in both files. A member of a group carries the
  emoji and four properties copied from its record.
\<close>

record member =
  emoji :: jsstring
  member_name :: jsstring
  member_skin_tone_support :: bool
  member_dual_skin_tone_support :: "bool option"







text \<open>
  \<^verbatim>\<open>Object.keys(emojiData).sort()\<close> in \<^verbatim>\<open>main\<close>: with no comparison function the strings
  are compared code unit by code unit, a proper prefix first. The keys of an object are
  distinct, so the sorted list is determined by that order alone.
\<close>

definition orderedEmojis :: "emoji_record jsobj \<Rightarrow> jsstring list" where
  "orderedEmojis emojiData = sort (Object_keys emojiData)"

section \<open>Inputs of the scenarios\<close>

definition grinning_row :: row where
  "grinning_row =
     \<lparr>codeCell = Some (js ''1F600''), nameCell = Some (js ''grinning face''),
      groupCell = Some (js ''Smileys & Emotion'')\<rparr>"

definition family_row :: row where
  "family_row =
     \<lparr>codeCell = Some (js ''1F46A''), nameCell = Some (js ''family''),
      groupCell = Some (js ''People & Body'')\<rparr>"

section \<open>Predicates used to state the claims\<close>

text \<open>
  A token in the sense of the specification's ``hexadecimal'': a non-empty run of
  hexadecimal digits and nothing else.
\<close>

definition spec_hex_token :: "jsstring \<Rightarrow> bool" where
  "spec_hex_token t \<longleftrightarrow> t \<noteq> [] \<and> list_all (\<lambda>c. digit_val 16 c \<noteq> None) t"

text \<open>The arguments that \<^verbatim>\<open>String.fromCodePoint\<close> rejects.\<close>

definition no_code_point :: "int option \<Rightarrow> bool" where
  "no_code_point p = (case p of None \<Rightarrow> True | Some n \<Rightarrow> n < 0 \<or> 1114111 < n)"

text \<open>A row that has its three cells and a piece of code text that is no code point.\<close>

definition unreadable_row :: "row \<Rightarrow> bool" where
  "unreadable_row r =
     (case codeCell r of
        None \<Rightarrow> False
      | Some c \<Rightarrow>
          nameCell r \<noteq> None \<and> groupCell r \<noteq> None \<and> list_ex no_code_point (parse_code c))"

definition trailing_garbage_row :: row where
  "trailing_garbage_row =
     \<lparr>codeCell = Some (js ''1F600Z''), nameCell = Some (js ''grinning face''),
      groupCell = Some (js ''Smileys & Emotion'')\<rparr>"

definition no_digit_row :: row where
  "no_digit_row =
     \<lparr>codeCell = Some (js ''1F44B XYZ''), nameCell = Some (js ''waving hand''),
      groupCell = Some (js ''People & Body'')\<rparr>"

text \<open>
  The counts table, as the specification reads it: the label and the count of a row, the
  rows that count for a category, and the count of the last row with a given label.
\<close>

definition row_category :: "jsstring list \<Rightarrow> jsstring" where
  "row_category cells = trim (cell_text cells 0)"

definition row_count :: "jsstring list \<Rightarrow> int option" where
  "row_count cells = parseInt (trim (cell_text cells 1)) 10"

definition special_labels :: "jsstring list" where
  "special_labels = map js [''Component'', ''Total'', ''With skin tone variations'']"

definition is_category_row :: "jsstring list \<Rightarrow> bool" where
  "is_category_row cells \<longleftrightarrow>
     row_category cells \<notin> set special_labels \<and> row_category cells \<noteq> js ''Group'' \<and>
     row_count cells \<noteq> None"

definition last_labelled :: "jsstring \<Rightarrow> jsstring list list \<Rightarrow> jsnum option" where
  "last_labelled lbl rows =
     (case rev (filter (\<lambda>cells. row_category cells = lbl) rows) of
        [] \<Rightarrow> None
      | cells # _ \<Rightarrow> Some (num_of_parse (row_count cells)))"

definition category_counts :: "jsstring list list \<Rightarrow> (jsstring \<times> jsnum) list" where
  "category_counts rows =
     map (\<lambda>cells. (row_category cells, num_of_parse (row_count cells)))
       (filter is_category_row rows)"

text \<open>The counts page of the self-test of \<^verbatim>\<open>part_000\<close>, and the same page without rows.\<close>

definition mock_counts :: "jsstring list list" where
  "mock_counts =
     [[js ''Group'', js ''Count''],
      [js ''Smileys & Emotion'', js ''100''],
      [js ''People & Body'', js ''200''],
      [js ''Component'', js ''10''],
      [js ''Total'', js ''310''],
      [js ''With skin tone variations'', js ''25'']]"



text \<open>
  The counts page of the self-test of \<^verbatim>\<open>generate-emoji-counts.js\<close> (each row as the texts
  of its child nodes), and a page with a header row, a row marked with the dark skin
  tone and a row of totals.
\<close>

definition mock_counts_script :: "jsstring list list" where
  "mock_counts_script =
     [[js ''Smileys & Emotion'', js ''100''],
      [js ''People & Body'', js ''200''],
      [js ''Total: 300''],
      [js ''Components: 10''],
      [js ''Dual skin tone support: 5'']]"

definition column_counts :: "jsstring list list" where
  "column_counts =
     [[js '''', js ''Smileys & Emotion'', js ''Component'', js ''Total''],
      [utf16 127999, js ''20'', js ''0'', js ''20''],
      [js ''Total'', js ''100'', js ''10'', js ''110'']]"

text \<open>Two mappings with the same four keys, created in different orders.\<close>

definition plain_record :: "jsstring \<Rightarrow> jsstring \<Rightarrow> emoji_record" where
  "plain_record nm grp =
     \<lparr>name = nm, group = grp, skin_tone_support = False,
      dual_skin_tone_support = Some False, is_variant = None, base_emoji = None,
      code_points = None\<rparr>"

definition keys_one_way :: "emoji_record jsobj" where
  "keys_one_way =
     [(utf16 128512 @ utf16 127995, plain_record (js ''a'') (js ''g'')),
      (utf16 128512, plain_record (js ''b'') (js ''g'')),
      (utf16 128075, plain_record (js ''c'') (js ''g'')),
      (js ''#'', plain_record (js ''d'') (js ''g''))]"

definition keys_other_way :: "emoji_record jsobj" where
  "keys_other_way =
     [(js ''#'', plain_record (js ''d'') (js ''g'')),
      (utf16 128075, plain_record (js ''c'') (js ''g'')),
      (utf16 128512, plain_record (js ''b'') (js ''g'')),
      (utf16 128512 @ utf16 127995, plain_record (js ''a'') (js ''g''))]"

text \<open>The handshake row of the self-tests: skin-tone-capable and dual-capable in both files.\<close>

definition handshake_row :: row where
  "handshake_row =
     \<lparr>codeCell = Some (js ''1F91D''), nameCell = Some (js ''handshake''),
      groupCell = Some (js ''People & Body'')\<rparr>"

text \<open>The ordered pairs of modifiers, each pair as the two modifiers one after the other.\<close>

definition modifier_pairs :: "jsstring list" where
  "modifier_pairs =
     concat (map (\<lambda>modifier1. map (\<lambda>modifier2. modifier1 @ modifier2) SKIN_TONE_MODIFIERS)
               SKIN_TONE_MODIFIERS)"

text \<open>
  The emoji key of a row that the parse reads, and the keys of the variants the row
  writes. Both are \<open>None\<close> or empty for a row that is skipped.
\<close>

definition row_emoji :: "row \<Rightarrow> jsstring option" where
  "row_emoji r =
     (case codeCell r of
        None \<Rightarrow> None
      | Some c \<Rightarrow>
          if nameCell r = None \<or> groupCell r = None then None
          else (case fromCodePoint (parse_code c) of Inl err \<Rightarrow> None | Inr e \<Rightarrow> Some e))"

definition row_variant_keys :: "script_file \<Rightarrow> row \<Rightarrow> jsstring list" where
  "row_variant_keys f r =
     (case row_emoji r of
        None \<Rightarrow> []
      | Some e \<Rightarrow>
          (case nameCell r of
             None \<Rightarrow> []
           | Some n \<Rightarrow>
               if hasSkinToneSupport f (trim n)
               then map ((@) e)
                      (SKIN_TONE_MODIFIERS
                       @ (if hasDualSkinToneSupport f (trim n) then modifier_pairs else []))
               else []))"

text \<open>
  The invariant of the specification on a mapping: the \<open>base_emoji\<close> of every variant
  record is a key of the mapping (\<open>bases_present\<close>), and the record at that key is not a
  variant (\<open>variants_resolve\<close>).
\<close>

definition is_variant_record :: "emoji_record \<Rightarrow> bool" where
  "is_variant_record d \<longleftrightarrow> is_variant d = Some True"

definition bases_present :: "emoji_record jsobj \<Rightarrow> bool" where
  "bases_present emojiData =
     list_all (\<lambda>(k, d). \<not> is_variant_record d \<or>
                 (case base_emoji d of
                    None \<Rightarrow> False
                  | Some b \<Rightarrow> map_of emojiData b \<noteq> None)) emojiData"

definition variants_resolve :: "emoji_record jsobj \<Rightarrow> bool" where
  "variants_resolve emojiData =
     list_all (\<lambda>(k, d). \<not> is_variant_record d \<or>
                 (case base_emoji d of
                    None \<Rightarrow> False
                  | Some b \<Rightarrow>
                      (case map_of emojiData b of
                         None \<Rightarrow> False
                       | Some bd \<Rightarrow> \<not> is_variant_record bd))) emojiData"

text \<open>
  Two conditions on the rows. No skin-tone-capable row has the key \<^verbatim>\<open>__proto__\<close>; and no
  row writes a variant at the emoji key of a row before it (\<open>seen\<close> collects the keys of
  the rows already read).
\<close>

definition no_capable_proto :: "script_file \<Rightarrow> row list \<Rightarrow> bool" where
  "no_capable_proto f rows =
     list_all (\<lambda>r. row_emoji r \<noteq> Some proto_key \<or> row_variant_keys f r = []) rows"

fun late_variants_miss :: "script_file \<Rightarrow> jsstring list \<Rightarrow> row list \<Rightarrow> bool" where
  "late_variants_miss f seen [] = True"
| "late_variants_miss f seen (r # rs) =
     (list_all (\<lambda>k. k \<notin> set seen) (row_variant_keys f r) \<and>
      late_variants_miss f (case row_emoji r of None \<Rightarrow> seen | Some e \<Rightarrow> e # seen) rs)"

text \<open>
  The same two invariants on the partial function that a mapping is; \<open>seen\<close> bounds the
  keys that variants may refer to.
\<close>

definition present_inv :: "(jsstring \<rightharpoonup> emoji_record) \<Rightarrow> bool" where
  "present_inv m \<longleftrightarrow>
     (\<forall>k d. m k = Some d \<and> is_variant_record d \<longrightarrow>
        (\<exists>b. base_emoji d = Some b \<and> m b \<noteq> None))"

definition resolve_inv :: "(jsstring \<rightharpoonup> emoji_record) \<Rightarrow> jsstring list \<Rightarrow> bool" where
  "resolve_inv m seen \<longleftrightarrow>
     (\<forall>k d. m k = Some d \<and> is_variant_record d \<longrightarrow>
        (\<exists>b. base_emoji d = Some b \<and> b \<in> set seen \<and>
             (\<exists>bd. m b = Some bd \<and> \<not> is_variant_record bd)))"

text \<open>The waving hand, and the row of its light skin tone as a page may list it.\<close>

definition waving_row :: row where
  "waving_row =
     \<lparr>codeCell = Some (js ''1F44B''), nameCell = Some (js ''waving hand''),
      groupCell = Some (js ''People & Body'')\<rparr>"

definition waving_light_row :: row where
  "waving_light_row =
     \<lparr>codeCell = Some (js ''1F44B 1F3FB''),
      nameCell = Some (js ''waving hand: light skin tone''),
      groupCell = Some (js ''People & Body'')\<rparr>"

text \<open>
  The grouping, as the specification reads it. \<open>first_occurrences\<close> keeps the first
  occurrence of every element, in order (\<open>remdups\<close> keeps the last ones).
  \<open>js_key_order\<close> is the order in which an object lists its keys. A group is created
  for every category that is no inherited property name, and its members are the
  records of that category that are not variants, in the order of the entries.
\<close>

definition first_occurrences :: "'a list \<Rightarrow> 'a list" where
  "first_occurrences xs = rev (remdups (rev xs))"

definition js_key_order :: "jsstring list \<Rightarrow> jsstring list" where
  "js_key_order ks =
     sort_key (\<lambda>k. case array_index k of Some i \<Rightarrow> i | None \<Rightarrow> 0)
       (filter (\<lambda>k. array_index k \<noteq> None) ks)
     @ filter (\<lambda>k. array_index k = None) ks"

definition categories :: "(jsstring \<times> emoji_record) list \<Rightarrow> jsstring list" where
  "categories es = map (\<lambda>(k, d). group d) es"

definition created_groups :: "(jsstring \<times> emoji_record) list \<Rightarrow> jsstring list" where
  "created_groups es =
     first_occurrences (filter (\<lambda>g. g \<notin> set object_prototype_keys) (categories es))"






text \<open>
  The keys that a row assigns: its emoji key and the keys of its variants. The rows
  \<open>post\<close> keep the keys \<open>ks\<close> when none of them assigns one of \<open>ks\<close>.
\<close>

definition written_keys :: "script_file \<Rightarrow> row \<Rightarrow> jsstring list" where
  "written_keys f r =
     (case row_emoji r of None \<Rightarrow> [] | Some e \<Rightarrow> e # row_variant_keys f r)"

definition later_rows_keep :: "script_file \<Rightarrow> jsstring list \<Rightarrow> row list \<Rightarrow> bool" where
  "later_rows_keep f ks post =
     list_all (\<lambda>r. list_all (\<lambda>k. k \<notin> set ks) (written_keys f r)) post"

text \<open>
  The variant records of a mapping that name \<open>e\<close> as their base. A single-tone variant
  has no \<open>dual_skin_tone_support\<close> property, a dual-tone variant has it set.
\<close>

definition variants_of :: "jsstring \<Rightarrow> emoji_record jsobj \<Rightarrow> (jsstring \<times> emoji_record) list" where
  "variants_of e emojiData =
     filter (\<lambda>(k, d). is_variant d = Some True \<and> base_emoji d = Some e) emojiData"

definition single_tone_variants ::
  "jsstring \<Rightarrow> emoji_record jsobj \<Rightarrow> (jsstring \<times> emoji_record) list" where
  "single_tone_variants e emojiData =
     filter (\<lambda>(k, d). dual_skin_tone_support d = None) (variants_of e emojiData)"

definition dual_tone_variants ::
  "jsstring \<Rightarrow> emoji_record jsobj \<Rightarrow> (jsstring \<times> emoji_record) list" where
  "dual_tone_variants e emojiData =
     filter (\<lambda>(k, d). dual_skin_tone_support d = Some True) (variants_of e emojiData)"

text \<open>
  Every variant record sits at the key of its base followed by one modifier, or by two
  when it is a dual-tone variant.
\<close>

definition shape_inv :: "(jsstring \<rightharpoonup> emoji_record) \<Rightarrow> bool" where
  "shape_inv m \<longleftrightarrow>
     (\<forall>k d. m k = Some d \<and> is_variant_record d \<longrightarrow>
        (\<exists>b s. base_emoji d = Some b \<and> k = b @ s \<and>
           (dual_skin_tone_support d = None \<and> s \<in> set SKIN_TONE_MODIFIERS \<or>
            dual_skin_tone_support d = Some True \<and> s \<in> set modifier_pairs)))"

text \<open>
  More rows: a waving hand and a family without a group cell, a family whose code text
  is written \<^verbatim>\<open>U+1F46A\<close>, a second row with the code of the family whose name is
  skin-tone-capable, and a row whose code text \<^verbatim>\<open>110000Z\<close> starts with the digits of a
  number that is no code point.
\<close>

definition waving_without_group :: row where
  "waving_without_group =
     \<lparr>codeCell = Some (js ''1F44B''), nameCell = Some (js ''waving hand''),
      groupCell = None\<rparr>"

definition family_without_group :: row where
  "family_without_group =
     \<lparr>codeCell = Some (js ''1F46A''), nameCell = Some (js ''family''), groupCell = None\<rparr>"

definition family_unreadable_row :: row where
  "family_unreadable_row =
     \<lparr>codeCell = Some (js ''U+1F46A''), nameCell = Some (js ''family''),
      groupCell = Some (js ''People & Body'')\<rparr>"

definition people_row :: row where
  "people_row =
     \<lparr>codeCell = Some (js ''1F46A''), nameCell = Some (js ''people''),
      groupCell = Some (js ''People & Body'')\<rparr>"

definition beyond_range_row :: row where
  "beyond_range_row =
     \<lparr>codeCell = Some (js ''110000Z''), nameCell = Some (js ''grinning face''),
      groupCell = Some (js ''Smileys & Emotion'')\<rparr>"

text \<open>The counts page of the self-test of \<^verbatim>\<open>part_000\<close> with a row labelled \<^verbatim>\<open>__proto__\<close>.\<close>

definition proto_counts :: "jsstring list list" where
  "proto_counts =
     [[js ''Group'', js ''Count''],
      [js ''__proto__'', js ''5''],
      [js ''Component'', js ''10''],
      [js ''Total'', js ''310''],
      [js ''With skin tone variations'', js ''25'']]"



section \<open>Evaluation on concrete inputs\<close>

lemmas str_defs = js_def trim_def trimStart_def is_space_def toLowerCase_def lower_unit_def

lemmas num_defs =
  parseInt_def strip_sign_def strip_hex_prefix_def digit_val_def utf16_def parse_code_def

lemmas row_defs =
  parseEmojiData_def parse_row_def row_writes_def variant_writes_def single_writes_def
  dual_writes_def base_record_def single_variant_def dual_variant_def
  hasSkinToneSupport_def hasDualSkinToneSupport_def skin_keywords_def dual_keywords_def
  stored_points_def assign_all_def obj_put_def proto_key_def SKIN_TONE_MODIFIERS_def
  getSkinToneName_def codePointAt0_def

section \<open>The grinning face row\<close>

text \<open>
  C5, as the code has it. In \<^verbatim>\<open>generate-emoji-counts.js\<close> the row with code \<^verbatim>\<open>1F600\<close>,
  name \<^verbatim>\<open>grinning face\<close> and group \<^verbatim>\<open>Smileys & Emotion\<close> gives exactly one entry: the
  record with that name and group and both capability flags false, and no variant.
\<close>

theorem C5_grinning_face_script:
  "parseEmojiData Generate_emoji_counts [grinning_row] =
     Inr [(utf16 128512,
           \<lparr>name = js ''grinning face'', group = js ''Smileys & Emotion'',
            skin_tone_support = False, dual_skin_tone_support = Some False,
            is_variant = None, base_emoji = None, code_points = None\<rparr>)]"
  by (simp add: grinning_row_def str_defs num_defs row_defs)

text \<open>
  C5 does not hold for \<^verbatim>\<open>part_000\<close>: its keyword list contains \<^verbatim>\<open>face\<close>, so the same row
  is skin-tone-capable there, its record stores the code points, and five single-tone
  variants follow it.
\<close>

theorem C5_grinning_face_part_000_counterexample:
  "parseEmojiData Part_000 [grinning_row] =
     Inr [(utf16 128512,
           \<lparr>name = js ''grinning face'', group = js ''Smileys & Emotion'',
            skin_tone_support = True, dual_skin_tone_support = Some False,
            is_variant = None, base_emoji = None, code_points = Some [Some 128512]\<rparr>),
          (utf16 128512 @ utf16 127995,
           \<lparr>name = js ''grinning face (light skin tone)'',
            group = js ''Smileys & Emotion'',
            skin_tone_support = True, dual_skin_tone_support = None,
            is_variant = Some True, base_emoji = Some (utf16 128512),
            code_points = Some [Some 128512, Some 127995]\<rparr>),
          (utf16 128512 @ utf16 127996,
           \<lparr>name = js ''grinning face (medium-light skin tone)'',
            group = js ''Smileys & Emotion'',
            skin_tone_support = True, dual_skin_tone_support = None,
            is_variant = Some True, base_emoji = Some (utf16 128512),
            code_points = Some [Some 128512, Some 127996]\<rparr>),
          (utf16 128512 @ utf16 127997,
           \<lparr>name = js ''grinning face (medium skin tone)'',
            group = js ''Smileys & Emotion'',
            skin_tone_support = True, dual_skin_tone_support = None,
            is_variant = Some True, base_emoji = Some (utf16 128512),
            code_points = Some [Some 128512, Some 127997]\<rparr>),
          (utf16 128512 @ utf16 127998,
           \<lparr>name = js ''grinning face (medium-dark skin tone)'',
            group = js ''Smileys & Emotion'',
            skin_tone_support = True, dual_skin_tone_support = None,
            is_variant = Some True, base_emoji = Some (utf16 128512),
            code_points = Some [Some 128512, Some 127998]\<rparr>),
          (utf16 128512 @ utf16 127999,
           \<lparr>name = js ''grinning face (dark skin tone)'',
            group = js ''Smileys & Emotion'',
            skin_tone_support = True, dual_skin_tone_support = None,
            is_variant = Some True, base_emoji = Some (utf16 128512),
            code_points = Some [Some 128512, Some 127999]\<rparr>)]"
  by (simp add: grinning_row_def str_defs num_defs row_defs)

section \<open>Code text that cannot be read\<close>

lemma fromCodePoint_Inl_iff:
  "fromCodePoint ps = Inl err \<longleftrightarrow> err = RangeError \<and> list_ex no_code_point ps"
  by (induction ps rule: fromCodePoint.induct)
     (auto simp: no_code_point_def split: sum.splits)

lemma fromCodePoint_Inr:
  "fromCodePoint ps = Inr s \<Longrightarrow> \<not> list_ex no_code_point ps"
  using fromCodePoint_Inl_iff [of ps RangeError] by auto

lemma parse_row_Inl_iff:
  "parse_row f r emojiData = Inl err \<longleftrightarrow> err = RangeError \<and> unreadable_row r"
  by (auto simp: parse_row_def unreadable_row_def fromCodePoint_Inl_iff
           dest: fromCodePoint_Inr split: option.splits sum.splits)

lemma parse_rows_Inl_iff:
  "parse_rows f rows emojiData = Inl err \<longleftrightarrow>
     err = RangeError \<and> (\<exists>r \<in> set rows. unreadable_row r)"
proof (induction rows arbitrary: emojiData)
  case Nil
  show ?case by simp
next
  case (Cons r rows)
  show ?case
  proof (cases "parse_row f r emojiData")
    case (Inl e)
    then show ?thesis
      using parse_row_Inl_iff [of f r emojiData e] by auto
  next
    case (Inr emojiData')
    then have "\<not> unreadable_row r"
      using parse_row_Inl_iff [of f r emojiData RangeError] by auto
    with Inr Cons.IH [of emojiData'] show ?thesis by auto
  qed
qed

text \<open>
  The parse raises exactly when some row with all three cells has a piece of code text
  that \<^verbatim>\<open>String.fromCodePoint\<close> rejects; otherwise it returns a mapping.
\<close>

lemma parseEmojiData_raises_iff:
  "parseEmojiData f rows = Inl RangeError \<longleftrightarrow> (\<exists>r \<in> set rows. unreadable_row r)"
  by (simp add: parseEmojiData_def parse_rows_Inl_iff)

lemma spec_hex_token_parses:
  assumes "spec_hex_token t"
  shows "parseInt t 16 \<noteq> None"
proof -
  from assms obtain c cs where t: "t = c # cs" and all: "list_all (\<lambda>c. digit_val 16 c \<noteq> None) t"
    by (cases t) (auto simp: spec_hex_token_def)
  from all t have c: "digit_val 16 c \<noteq> None" by simp
  then have ns: "\<not> is_space c" "c \<noteq> 45" "c \<noteq> 43"
    by (auto simp: digit_val_def is_space_def split: if_splits)
  have hx: "strip_hex_prefix t \<noteq> [] \<and> digit_val 16 (hd (strip_hex_prefix t)) \<noteq> None"
  proof (cases cs)
    case Nil
    with t c show ?thesis by (simp add: strip_hex_prefix_def)
  next
    case (Cons b bs)
    show ?thesis
    proof (cases "c = 48 \<and> (b = 120 \<or> b = 88)")
      case True
      with all t Cons have False by (auto simp: digit_val_def)
      then show ?thesis ..
    next
      case False
      with t Cons c show ?thesis by (auto simp: strip_hex_prefix_def)
    qed
  qed
  from ns t have "strip_sign (trimStart t) = (False, t)"
    by (simp add: trimStart_def strip_sign_def)
  with hx show ?thesis
    by (cases "strip_hex_prefix t") (auto simp: parseInt_def split: option.splits)
qed

text \<open>
  C6, as the code has it. \<^verbatim>\<open>parseEmojiData\<close> raises a \<^verbatim>\<open>RangeError\<close>, and so returns no
  mapping at all, exactly when some row has all three cells and its code text has a
  piece \<open>t\<close> (the pieces of the trimmed text between single spaces) for which
  \<^verbatim>\<open>parseInt(t, 16)\<close> is \<^verbatim>\<open>NaN\<close>, negative or above \<open>0x10FFFF\<close>: these are the
  arguments that \<^verbatim>\<open>String.fromCodePoint\<close> rejects, and nothing catches the error. It
  raises nothing else: when no row has such a piece it returns a mapping.
\<close>

theorem C6_raises_iff_rejected:
  "(parseEmojiData f rows = Inl RangeError \<longleftrightarrow>
      (\<exists>r c t. r \<in> set rows \<and> codeCell r = Some c \<and> nameCell r \<noteq> None \<and>
         groupCell r \<noteq> None \<and> t \<in> set (split_space (trim c)) \<and>
         no_code_point (parseInt t 16))) \<and>
   (parseEmojiData f rows = Inl RangeError \<or>
      (\<exists>emojiData. parseEmojiData f rows = Inr emojiData))"
proof (intro conjI)
  have "unreadable_row r \<longleftrightarrow>
      (\<exists>c t. codeCell r = Some c \<and> nameCell r \<noteq> None \<and> groupCell r \<noteq> None \<and>
         t \<in> set (split_space (trim c)) \<and> no_code_point (parseInt t 16))" for r
    by (auto simp: unreadable_row_def parse_code_def list_ex_iff split: option.splits)
  then show "parseEmojiData f rows = Inl RangeError \<longleftrightarrow>
      (\<exists>r c t. r \<in> set rows \<and> codeCell r = Some c \<and> nameCell r \<noteq> None \<and>
         groupCell r \<noteq> None \<and> t \<in> set (split_space (trim c)) \<and>
         no_code_point (parseInt t 16))"
    unfolding parseEmojiData_raises_iff by blast
  show "parseEmojiData f rows = Inl RangeError \<or>
      (\<exists>emojiData. parseEmojiData f rows = Inr emojiData)"
  proof (cases "parseEmojiData f rows")
    case (Inl err)
    then have "err = RangeError"
      by (simp add: parseEmojiData_def parse_rows_Inl_iff)
    with Inl show ?thesis by simp
  next
    case (Inr emojiData)
    then show ?thesis by blast
  qed
qed

text \<open>
  The row \<^verbatim>\<open>1F44B XYZ\<close> after the grinning face: \<^verbatim>\<open>parseInt\<close> reads no digit from the
  piece \<^verbatim>\<open>XYZ\<close>. And the row \<^verbatim>\<open>110000Z\<close>: the piece is read as \<open>0x110000\<close>, one above
  the last code point. Both parses raise.
\<close>

theorem C6_rejected_witness:
  "no_digit_row \<in> set [grinning_row, no_digit_row] \<and>
   codeCell no_digit_row = Some (js ''1F44B XYZ'') \<and>
   nameCell no_digit_row \<noteq> None \<and> groupCell no_digit_row \<noteq> None \<and>
   js ''XYZ'' \<in> set (split_space (trim (js ''1F44B XYZ''))) \<and>
   parseInt (js ''XYZ'') 16 = None \<and>
   parseEmojiData Part_000 [grinning_row, no_digit_row] = Inl RangeError \<and>
   parseInt (js ''110000Z'') 16 = Some 1114112 \<and>
   parseEmojiData Part_000 [beyond_range_row] = Inl RangeError"
proof -
  have 1: "no_digit_row \<in> set [grinning_row, no_digit_row]" by simp
  have 2: "codeCell no_digit_row = Some (js ''1F44B XYZ'')"
    and 3: "nameCell no_digit_row \<noteq> None"
    and 4: "groupCell no_digit_row \<noteq> None"
    by (simp_all add: no_digit_row_def)
  have 5: "js ''XYZ'' \<in> set (split_space (trim (js ''1F44B XYZ'')))"
    by (simp add: str_defs)
  have 6: "parseInt (js ''XYZ'') 16 = None"
    by (simp add: str_defs num_defs)
  then have 7: "no_code_point (parseInt (js ''XYZ'') 16)"
    by (simp add: no_code_point_def)
  from 1 2 3 4 5 7
  have a: "parseEmojiData Part_000 [grinning_row, no_digit_row] = Inl RangeError"
    unfolding C6_raises_iff_rejected [of Part_000 "[grinning_row, no_digit_row]", THEN conjunct1]
    by blast
  have 8: "parseInt (js ''110000Z'') 16 = Some 1114112"
    by (simp add: str_defs num_defs)
  have 9: "beyond_range_row \<in> set [beyond_range_row]" by simp
  have 10: "codeCell beyond_range_row = Some (js ''110000Z'')"
    and 11: "nameCell beyond_range_row \<noteq> None"
    and 12: "groupCell beyond_range_row \<noteq> None"
    by (simp_all add: beyond_range_row_def)
  have 13: "js ''110000Z'' \<in> set (split_space (trim (js ''110000Z'')))"
    by (simp add: str_defs)
  from 8 have 14: "no_code_point (parseInt (js ''110000Z'') 16)"
    by (simp add: no_code_point_def)
  from 9 10 11 12 13 14
  have b: "parseEmojiData Part_000 [beyond_range_row] = Inl RangeError"
    unfolding C6_raises_iff_rejected [of Part_000 "[beyond_range_row]", THEN conjunct1]
    by blast
  from 1 2 3 4 5 6 a 8 b show ?thesis by blast
qed

text \<open>
  C6 as stated fails for the piece \<^verbatim>\<open>1F600Z\<close>, which is no hexadecimal numeral:
  \<^verbatim>\<open>parseInt\<close> reads the digits \<^verbatim>\<open>1F600\<close> and drops the rest, so the row is taken for the
  grinning face and nothing is raised.
\<close>

theorem C6_trailing_garbage_counterexample:
  "\<not> spec_hex_token (js ''1F600Z'') \<and>
   codeCell trailing_garbage_row = Some (js ''1F600Z'') \<and>
   parseEmojiData Generate_emoji_counts [trailing_garbage_row] =
     Inr [(utf16 128512,
           \<lparr>name = js ''grinning face'', group = js ''Smileys & Emotion'',
            skin_tone_support = False, dual_skin_tone_support = Some False,
            is_variant = None, base_emoji = None, code_points = None\<rparr>)]"
  by (simp add: spec_hex_token_def trailing_garbage_row_def str_defs num_defs row_defs)

section \<open>The counts table of \<^verbatim>\<open>part_000\<close>\<close>

lemmas counts_defs =
  parseEmojiCounts_def parseEmojiCounts_part_000_def counts_step_def cell_text_def
  initial_stats_def num_of_parse_def to_double_def to_number_def obj_put_def proto_key_def

lemma last_labelled_Nil [simp]: "last_labelled lbl [] = None"
  by (simp add: last_labelled_def)

lemma last_labelled_Cons:
  "last_labelled lbl (cells # rows) =
     (case last_labelled lbl rows of
        Some v \<Rightarrow> Some v
      | None \<Rightarrow> if row_category cells = lbl then Some (num_of_parse (row_count cells))
                else None)"
  by (cases "rev (filter (\<lambda>cells. row_category cells = lbl) rows)")
     (simp_all add: last_labelled_def)


lemma label_facts:
  "js ''Component'' \<noteq> js ''Total''"
  "js ''Component'' \<noteq> js ''With skin tone variations''"
  "js ''Total'' \<noteq> js ''With skin tone variations''"
  "js ''Total'' \<noteq> js ''Component''"
  "js ''With skin tone variations'' \<noteq> js ''Component''"
  "js ''With skin tone variations'' \<noteq> js ''Total''"
  by (simp_all add: js_def)

lemma counts_step_cases:
  "counts_step st cells =
     (if row_category cells = js ''Component''
        then st\<lparr>component := num_of_parse (row_count cells)\<rparr>
      else if row_category cells = js ''Total''
        then st\<lparr>total_with_variations := Some (num_of_parse (row_count cells))\<rparr>
      else if row_category cells = js ''With skin tone variations''
        then st\<lparr>skin_tone_variations := Some (num_of_parse (row_count cells))\<rparr>
      else if is_category_row cells
        then st\<lparr>groups := obj_put (row_category cells) (num_of_parse (row_count cells))
                               (groups st)\<rparr>
      else st)"
  by (simp add: counts_step_def row_category_def row_count_def is_category_row_def
      special_labels_def Let_def)

lemma component_counts_loop:
  "component (counts_loop st rows) =
     (case last_labelled (js ''Component'') rows of None \<Rightarrow> component st | Some v \<Rightarrow> v)"
  by (induction rows arbitrary: st)
     (auto simp: last_labelled_Cons counts_step_cases label_facts split: option.splits)

lemma total_counts_loop:
  "total_with_variations (counts_loop st rows) =
     (case last_labelled (js ''Total'') rows of
        None \<Rightarrow> total_with_variations st | Some v \<Rightarrow> Some v)"
  by (induction rows arbitrary: st)
     (auto simp: last_labelled_Cons counts_step_cases label_facts split: option.splits)

lemma skin_counts_loop:
  "skin_tone_variations (counts_loop st rows) =
     (case last_labelled (js ''With skin tone variations'') rows of
        None \<Rightarrow> skin_tone_variations st | Some v \<Rightarrow> Some v)"
  by (induction rows arbitrary: st)
     (auto simp: last_labelled_Cons counts_step_cases label_facts split: option.splits)

lemma groups_counts_loop:
  "groups (counts_loop st rows) = assign_all (category_counts rows) (groups st)"
  by (induction rows arbitrary: st)
     (auto simp: counts_step_cases category_counts_def assign_all_def is_category_row_def
        special_labels_def)

lemma dual_counts_loop:
  "stats_dual_skin_tone_support (counts_loop st rows) = stats_dual_skin_tone_support st"
  by (induction rows arbitrary: st) (auto simp: counts_step_cases)

lemma js_sub_exact:
  "\<bar>a - b\<bar> \<le> 2 ^ 53 \<Longrightarrow> \<bar>a - b - c\<bar> \<le> 2 ^ 53 \<Longrightarrow>
     js_sub (js_sub (Num a) (Num b)) (Num c) = Num (a - b - c)"
  by (simp add: to_double_def)

text \<open>
  What \<^verbatim>\<open>parseEmojiCounts\<close> of \<^verbatim>\<open>part_000\<close> returns, for every table. It never looks at
  the first row. From the rows after it, it makes the assignment
  \<^verbatim>\<open>stats.groups[label] = count\<close> for each row, in order, whose label is none of
  \<^verbatim>\<open>Component\<close>, \<^verbatim>\<open>Total\<close>, \<^verbatim>\<open>With skin tone variations\<close> and \<^verbatim>\<open>Group\<close> and whose count
  parses; it keeps the count of the last \<^verbatim>\<open>Component\<close>, \<^verbatim>\<open>Total\<close> and
  \<^verbatim>\<open>With skin tone variations\<close> row; and it returns
  \<open>total_without_skin_tone_variations = total - skin_tone_variations - component\<close>,
  which is the exact integer difference while the numbers are exact doubles. On the rows
  \<^verbatim>\<open>Component = 10\<close>, \<^verbatim>\<open>Total = 310\<close>, \<^verbatim>\<open>With skin tone variations = 25\<close> of the self-test
  the result is 275, with both category counts in place.
\<close>

lemma parseEmojiCounts_part_000_result:
  "parseEmojiCounts Part_000 rows =
     Inr \<lparr>total_without_skin_tone_variations =
            js_sub (js_sub (to_number (last_labelled (js ''Total'') (drop 1 rows)))
                           (to_number (last_labelled (js ''With skin tone variations'')
                                         (drop 1 rows))))
                   (case last_labelled (js ''Component'') (drop 1 rows) of
                      None \<Rightarrow> Num 0 | Some v \<Rightarrow> v),
          component =
            (case last_labelled (js ''Component'') (drop 1 rows) of
               None \<Rightarrow> Num 0 | Some v \<Rightarrow> v),
          stats_dual_skin_tone_support = Num 0,
          groups = assign_all (category_counts (drop 1 rows)) [],
          total_with_variations = last_labelled (js ''Total'') (drop 1 rows),
          skin_tone_variations =
            last_labelled (js ''With skin tone variations'') (drop 1 rows)\<rparr>
   \<and> (\<forall>T S C.
        last_labelled (js ''Total'') (drop 1 rows) = Some (Num T) \<and>
        last_labelled (js ''With skin tone variations'') (drop 1 rows) = Some (Num S) \<and>
        last_labelled (js ''Component'') (drop 1 rows) = Some (Num C) \<and>
        \<bar>T - S\<bar> \<le> 2 ^ 53 \<and> \<bar>T - S - C\<bar> \<le> 2 ^ 53 \<longrightarrow>
        total_without_skin_tone_variations (parseEmojiCounts_part_000 rows)
          = Num (T - S - C))
   \<and> parseEmojiCounts Part_000 mock_counts =
       Inr \<lparr>total_without_skin_tone_variations = Num 275, component = Num 10,
            stats_dual_skin_tone_support = Num 0,
            groups = [(js ''Smileys & Emotion'', Num 100), (js ''People & Body'', Num 200)],
            total_with_variations = Some (Num 310),
            skin_tone_variations = Some (Num 25)\<rparr>"
proof (intro conjI allI impI)
  define st where "st = counts_loop initial_stats (drop 1 rows)"
  have c: "component st =
      (case last_labelled (js ''Component'') (drop 1 rows) of None \<Rightarrow> Num 0 | Some v \<Rightarrow> v)"
    by (simp add: st_def component_counts_loop initial_stats_def split: option.splits)
  have t: "total_with_variations st = last_labelled (js ''Total'') (drop 1 rows)"
    by (simp add: st_def total_counts_loop initial_stats_def split: option.splits)
  have s: "skin_tone_variations st =
      last_labelled (js ''With skin tone variations'') (drop 1 rows)"
    by (simp add: st_def skin_counts_loop initial_stats_def split: option.splits)
  have g: "groups st = assign_all (category_counts (drop 1 rows)) []"
    by (simp add: st_def groups_counts_loop initial_stats_def)
  have d: "stats_dual_skin_tone_support st = Num 0"
    by (simp add: st_def dual_counts_loop initial_stats_def)
  have whole: "parseEmojiCounts_part_000 rows =
      st\<lparr>total_without_skin_tone_variations :=
            js_sub (js_sub (to_number (total_with_variations st))
                           (to_number (skin_tone_variations st))) (component st)\<rparr>"
    by (simp add: parseEmojiCounts_part_000_def st_def Let_def)
  show "parseEmojiCounts Part_000 rows =
     Inr \<lparr>total_without_skin_tone_variations =
            js_sub (js_sub (to_number (last_labelled (js ''Total'') (drop 1 rows)))
                           (to_number (last_labelled (js ''With skin tone variations'')
                                         (drop 1 rows))))
                   (case last_labelled (js ''Component'') (drop 1 rows) of
                      None \<Rightarrow> Num 0 | Some v \<Rightarrow> v),
          component =
            (case last_labelled (js ''Component'') (drop 1 rows) of
               None \<Rightarrow> Num 0 | Some v \<Rightarrow> v),
          stats_dual_skin_tone_support = Num 0,
          groups = assign_all (category_counts (drop 1 rows)) [],
          total_with_variations = last_labelled (js ''Total'') (drop 1 rows),
          skin_tone_variations =
            last_labelled (js ''With skin tone variations'') (drop 1 rows)\<rparr>"
    unfolding parseEmojiCounts_def whole
    using c t s g d by (cases st) simp
  fix T S C
  assume h: "last_labelled (js ''Total'') (drop 1 rows) = Some (Num T) \<and>
        last_labelled (js ''With skin tone variations'') (drop 1 rows) = Some (Num S) \<and>
        last_labelled (js ''Component'') (drop 1 rows) = Some (Num C) \<and>
        \<bar>T - S\<bar> \<le> 2 ^ 53 \<and> \<bar>T - S - C\<bar> \<le> 2 ^ 53"
  then have "\<bar>T - S\<bar> \<le> 2 ^ 53" and "\<bar>T - S - C\<bar> \<le> 2 ^ 53"
    by blast+
  then have ex: "js_sub (js_sub (Num T) (Num S)) (Num C) = Num (T - S - C)"
    by (rule js_sub_exact)
  from h c t s have "component st = Num C" "to_number (total_with_variations st) = Num T"
    "to_number (skin_tone_variations st) = Num S"
    by (simp_all add: to_number_def)
  with ex show "total_without_skin_tone_variations (parseEmojiCounts_part_000 rows)
          = Num (T - S - C)"
    unfolding whole by simp
next
  show "parseEmojiCounts Part_000 mock_counts =
       Inr \<lparr>total_without_skin_tone_variations = Num 275, component = Num 10,
            stats_dual_skin_tone_support = Num 0,
            groups = [(js ''Smileys & Emotion'', Num 100), (js ''People & Body'', Num 200)],
            total_with_variations = Some (Num 310),
            skin_tone_variations = Some (Num 25)\<rparr>"
    by (simp add: mock_counts_def counts_defs str_defs num_defs)
qed

lemma map_of_assign_all_last:
  "k \<noteq> proto_key \<Longrightarrow>
     map_of (assign_all ws obj) k =
       (case map_of (rev ws) k of Some v \<Rightarrow> Some v | None \<Rightarrow> map_of obj k)"
proof (induction ws arbitrary: obj)
  case Nil
  show ?case by (simp add: assign_all_def)
next
  case (Cons w ws)
  obtain k' v' where w: "w = (k', v')" by (cases w)
  have step: "assign_all (w # ws) obj = assign_all ws (obj_put k' v' obj)"
    by (simp add: w assign_all_def)
  from Cons.prems have "map_of (assign_all ws (obj_put k' v' obj)) k =
      (case map_of (rev ws) k of Some v \<Rightarrow> Some v | None \<Rightarrow> map_of (obj_put k' v' obj) k)"
    by (rule Cons.IH)
  with Cons.prems show ?case
    unfolding step
    by (auto simp: w obj_put_def update_conv' map_add_def split: option.splits)
qed

text \<open>
  So a label other than \<^verbatim>\<open>__proto__\<close> is recorded with the count of the last row that
  counts for it.
\<close>

lemma category_counts_recorded:
  assumes "lbl \<noteq> proto_key"
  shows "map_of (groups (parseEmojiCounts_part_000 rows)) lbl =
     map_of (rev (category_counts (drop 1 rows))) lbl"
proof -
  have "groups (parseEmojiCounts_part_000 rows) = assign_all (category_counts (drop 1 rows)) []"
    by (simp add: parseEmojiCounts_part_000_def Let_def groups_counts_loop initial_stats_def)
  with assms show ?thesis
    by (simp add: map_of_assign_all_last split: option.splits)
qed

text \<open>
  C2 fails for the label \<^verbatim>\<open>__proto__\<close>. The row \<^verbatim>\<open>__proto__ = 5\<close> is none of the three
  special rows, its label is not \<^verbatim>\<open>Group\<close> and its count parses, so it counts for a
  category; but the assignment \<^verbatim>\<open>stats.groups['__proto__'] = 5\<close> creates no property,
  and the groups that \<^verbatim>\<open>parseEmojiCounts\<close> of \<^verbatim>\<open>part_000\<close> returns are empty. The rest is
  as for every table: the first row is skipped and \<open>310 - 25 - 10 = 275\<close> is returned.
\<close>

theorem C2_proto_label_not_recorded:
  "is_category_row [js ''__proto__'', js ''5''] \<and>
   parseEmojiCounts Part_000 proto_counts =
     Inr \<lparr>total_without_skin_tone_variations = Num 275, component = Num 10,
          stats_dual_skin_tone_support = Num 0,
          groups = [],
          total_with_variations = Some (Num 310),
          skin_tone_variations = Some (Num 25)\<rparr>"
  by (simp add: proto_counts_def is_category_row_def row_category_def row_count_def
      special_labels_def counts_defs str_defs num_defs)

section \<open>Counts that cannot be reconciled\<close>




section \<open>The counts table of \<^verbatim>\<open>generate-emoji-counts.js\<close>\<close>

lemma header_loop_result:
  "header_loop cols totalCells i st = Inl err \<longleftrightarrow>
     err = TypeError \<and> cols \<noteq> [] \<and> length totalCells < i + length cols"
  by (induction cols totalCells i st rule: header_loop.induct) (auto simp: Let_def)

lemma header_loop_dual:
  "header_loop cols totalCells i st = Inr st' \<Longrightarrow>
     stats_dual_skin_tone_support st' = stats_dual_skin_tone_support st"
  by (induction cols totalCells i st rule: header_loop.induct)
     (auto simp: Let_def split: if_splits)

lemma marker_counts_result:
  "marker_counts rows = Inl err \<longleftrightarrow> err = TypeError \<and> (\<exists>r \<in> set rows. r = [])"
  by (induction rows) (auto split: list.splits sum.splits)

text \<open>
  C10, as the code has it. \<^verbatim>\<open>parseEmojiCounts\<close> of \<^verbatim>\<open>generate-emoji-counts.js\<close> returns
  when the page has a row, no row is without child nodes and the last row has at least
  as many child nodes as the first; then \<open>dual_skin_tone_support\<close> is 13 whatever the
  rows hold. On every other page it raises a \<^verbatim>\<open>TypeError\<close> and returns nothing.
\<close>

theorem C10_dual_count_constant:
  "(rows \<noteq> [] \<and> (\<forall>r \<in> set rows. r \<noteq> []) \<and> length (hd rows) \<le> length (last rows) \<longrightarrow>
      (\<exists>st. parseEmojiCounts Generate_emoji_counts rows = Inr st \<and>
            stats_dual_skin_tone_support st = Num 13)) \<and>
   (\<not> (rows \<noteq> [] \<and> (\<forall>r \<in> set rows. r \<noteq> []) \<and> length (hd rows) \<le> length (last rows))
      \<longrightarrow> parseEmojiCounts Generate_emoji_counts rows = Inl TypeError)"
proof (cases rows)
  case Nil
  then show ?thesis
    by (simp add: parseEmojiCounts_def parseEmojiCounts_script_def)
next
  case (Cons theadCells rest)
  define start where "start = initial_stats\<lparr>total_without_skin_tone_variations :=
      Number_of (last (last rows))\<rparr>"
  have body: "parseEmojiCounts Generate_emoji_counts rows =
      (if last rows = [] then Inl TypeError
       else (case header_loop theadCells (last rows) 0 start of
               Inl e \<Rightarrow> Inl e
             | Inr st \<Rightarrow>
                 (case marker_counts rows of
                    Inl e \<Rightarrow> Inl e
                  | Inr counts \<Rightarrow>
                      Inr (st\<lparr>total_without_skin_tone_variations :=
                                js_sub (js_sub (total_without_skin_tone_variations st)
                                          (fold (\<lambda>b a. js_add a b) counts (Num 0)))
                                       (component st),
                              stats_dual_skin_tone_support := Num 13\<rparr>))))"
    by (simp add: parseEmojiCounts_def parseEmojiCounts_script_def start_def Let_def Cons
        split: sum.splits)
  have hd: "hd rows = theadCells" "rows \<noteq> []"
    using Cons by simp_all
  have lastmem: "last rows \<in> set rows"
    using hd(2) by (rule last_in_set)
  show ?thesis
  proof (cases "(\<forall>r \<in> set rows. r \<noteq> []) \<and> length theadCells \<le> length (last rows)")
    case True
    then have ne: "last rows \<noteq> []" using lastmem by blast
    from True obtain st where st: "header_loop theadCells (last rows) 0 start = Inr st"
      using header_loop_result [of theadCells "last rows" 0 start TypeError]
        header_loop_result [of theadCells "last rows" 0 start RangeError]
      by (cases "header_loop theadCells (last rows) 0 start")
         (auto simp: header_loop_result)
    from True obtain counts where cs: "marker_counts rows = Inr counts"
      by (cases "marker_counts rows") (auto simp: marker_counts_result)
    from ne st cs True hd show ?thesis
      by (simp add: body)
  next
    case False
    then consider "\<exists>r \<in> set rows. r = []" | "length (last rows) < length theadCells"
      by (auto simp: not_le)
    then have "parseEmojiCounts Generate_emoji_counts rows = Inl TypeError"
    proof cases
      case 1
      then have m: "marker_counts rows = Inl TypeError"
        by (simp add: marker_counts_result)
      show ?thesis
      proof (cases "header_loop theadCells (last rows) 0 start")
        case (Inl e)
        then have "e = TypeError" by (simp add: header_loop_result)
        with Inl show ?thesis by (simp add: body)
      next
        case (Inr st)
        with m show ?thesis by (simp add: body)
      qed
    next
      case 2
      then have "header_loop theadCells (last rows) 0 start = Inl TypeError"
        by (auto simp: header_loop_result)
      then show ?thesis by (simp add: body)
    qed
    with False hd show ?thesis by simp
  qed
qed

lemmas script_counts_defs =
  parseEmojiCounts_def parseEmojiCounts_script_def Number_of_def group_columns_def
  skinToneMarker_def initial_stats_def to_double_def is_digit_def obj_put_def proto_key_def
  strip_sign_def utf16_def digit_val_def

text \<open>
  C10 as stated fails on the page without rows, and on the page of the script's own
  self-test, whose last row has fewer child nodes than its first: both raise.
\<close>

theorem C10_raises_counterexample:
  "parseEmojiCounts Generate_emoji_counts [] = Inl TypeError \<and>
   parseEmojiCounts Generate_emoji_counts mock_counts_script = Inl TypeError"
  by (simp add: mock_counts_script_def script_counts_defs str_defs)

text \<open>A page on which the function returns: the count is 13, next to the counts it read.\<close>

theorem C10_column_counts_witness:
  "column_counts \<noteq> [] \<and> list_all (\<lambda>r. r \<noteq> []) column_counts \<and>
   length (hd column_counts) \<le> length (last column_counts) \<and>
   (\<exists>st. parseEmojiCounts Generate_emoji_counts column_counts = Inr st \<and>
         stats_dual_skin_tone_support st = Num 13) \<and>
   parseEmojiCounts Generate_emoji_counts column_counts =
     Inr \<lparr>total_without_skin_tone_variations = Num 80, component = Num 10,
          stats_dual_skin_tone_support = Num 13,
          groups = [(js ''Smileys & Emotion'', Num 100)],
          total_with_variations = None, skin_tone_variations = None\<rparr>"
proof -
  have a: "column_counts \<noteq> []" "\<forall>r \<in> set column_counts. r \<noteq> []"
    "length (hd column_counts) \<le> length (last column_counts)"
    by (simp_all add: column_counts_def)
  with C10_dual_count_constant [of column_counts]
  have b: "\<exists>st. parseEmojiCounts Generate_emoji_counts column_counts = Inr st \<and>
         stats_dual_skin_tone_support st = Num 13"
    by blast
  have c: "parseEmojiCounts Generate_emoji_counts column_counts =
     Inr \<lparr>total_without_skin_tone_variations = Num 80, component = Num 10,
          stats_dual_skin_tone_support = Num 13,
          groups = [(js ''Smileys & Emotion'', Num 100)],
          total_with_variations = None, skin_tone_variations = None\<rparr>"
    by (simp add: column_counts_def script_counts_defs str_defs)
  from a have "list_all (\<lambda>r. r \<noteq> []) column_counts" by (simp add: list_all_iff)
  with a b c show ?thesis by blast
qed

section \<open>The ordered list of emojis\<close>

text \<open>The order on strings: code unit by code unit, and a proper prefix comes first.\<close>

lemma code_unit_order:
  fixes s t :: jsstring
  shows "[] \<le> t" and "\<not> a # s \<le> []" and "a # s \<le> b # t \<longleftrightarrow> a < b \<or> a = b \<and> s \<le> t"
  by auto

text \<open>
  C8. The ordered list is the keys of the mapping in ascending lexicographic order of
  their code units, each key as often as it was there. Sorting the result again changes
  nothing, sorting any sorted list changes nothing, and two mappings with the same keys
  give the same list, in whatever order the keys were created.
\<close>

theorem C8_ordered_emojis:
  "sorted (orderedEmojis emojiData) \<and>
   mset (orderedEmojis emojiData) = mset (Object_keys emojiData) \<and>
   sort (orderedEmojis emojiData) = orderedEmojis emojiData \<and>
   (\<forall>xs :: jsstring list. sorted xs \<longrightarrow> sort xs = xs) \<and>
   (\<forall>other. mset (Object_keys other) = mset (Object_keys emojiData) \<longrightarrow>
      orderedEmojis other = orderedEmojis emojiData)"
proof (intro conjI allI impI)
  show "sorted (orderedEmojis emojiData)"
    by (simp add: orderedEmojis_def)
  show "mset (orderedEmojis emojiData) = mset (Object_keys emojiData)"
    by (simp add: orderedEmojis_def)
  show "sort (orderedEmojis emojiData) = orderedEmojis emojiData"
    by (simp add: orderedEmojis_def sort_key_id_if_sorted)
next
  fix xs :: "jsstring list"
  assume "sorted xs"
  then show "sort xs = xs" by (simp add: sort_key_id_if_sorted)
next
  fix other :: "emoji_record jsobj"
  assume "mset (Object_keys other) = mset (Object_keys emojiData)"
  then show "orderedEmojis other = orderedEmojis emojiData"
    unfolding orderedEmojis_def
    by (intro properties_for_sort) simp_all
qed

lemmas object_defs = Object_keys_def Object_entries_def array_index_def is_digit_def

text \<open>Four keys, created in two different orders, give one ordered list.\<close>

theorem C8_ordered_emojis_witness:
  "mset (Object_keys keys_other_way) = mset (Object_keys keys_one_way) \<and>
   sorted [js ''#'', utf16 128075, utf16 128512, utf16 128512 @ utf16 127995] \<and>
   orderedEmojis keys_one_way =
     [js ''#'', utf16 128075, utf16 128512, utf16 128512 @ utf16 127995] \<and>
   orderedEmojis keys_other_way =
     [js ''#'', utf16 128075, utf16 128512, utf16 128512 @ utf16 127995] \<and>
   sort [js ''#'', utf16 128075, utf16 128512, utf16 128512 @ utf16 127995] =
     [js ''#'', utf16 128075, utf16 128512, utf16 128512 @ utf16 127995]"
proof -
  have k1: "Object_keys keys_one_way =
      [utf16 128512 @ utf16 127995, utf16 128512, utf16 128075, js ''#'']"
    by (simp add: keys_one_way_def object_defs js_def utf16_def)
  have k2: "Object_keys keys_other_way =
      [js ''#'', utf16 128075, utf16 128512, utf16 128512 @ utf16 127995]"
    by (simp add: keys_other_way_def object_defs js_def utf16_def)
  have m: "mset (Object_keys keys_other_way) = mset (Object_keys keys_one_way)"
    by (simp add: k1 k2)
  have s: "sorted [js ''#'', utf16 128075, utf16 128512, utf16 128512 @ utf16 127995]"
    by (simp add: js_def utf16_def)
  have o2: "orderedEmojis keys_other_way =
      [js ''#'', utf16 128075, utf16 128512, utf16 128512 @ utf16 127995]"
    using C8_ordered_emojis [of keys_one_way] s
    by (simp add: orderedEmojis_def k2)
  from C8_ordered_emojis [of keys_one_way] m
  have "orderedEmojis keys_other_way = orderedEmojis keys_one_way"
    by blast
  with o2 have o1: "orderedEmojis keys_one_way =
      [js ''#'', utf16 128075, utf16 128512, utf16 128512 @ utf16 127995]"
    by simp
  from C8_ordered_emojis [of keys_one_way] s
  have "sort [js ''#'', utf16 128075, utf16 128512, utf16 128512 @ utf16 127995] =
     [js ''#'', utf16 128075, utf16 128512, utf16 128512 @ utf16 127995]"
    by blast
  with m s o1 o2 show ?thesis by blast
qed

section \<open>Assignments to an object\<close>

lemma map_of_obj_put:
  "map_of (obj_put k v obj) = (if k = proto_key then map_of obj else (map_of obj)(k \<mapsto> v))"
  by (simp add: obj_put_def update_conv')

lemma distinct_obj_put:
  "distinct (map fst obj) \<Longrightarrow> distinct (map fst (obj_put k v obj))"
  by (simp add: obj_put_def distinct_update)

lemma assign_all_Nil [simp]: "assign_all [] obj = obj"
  by (simp add: assign_all_def)

lemma assign_all_Cons [simp]:
  "assign_all ((k, v) # ws) obj = assign_all ws (obj_put k v obj)"
  by (simp add: assign_all_def)

lemma assign_all_append:
  "assign_all (ws @ ws') obj = assign_all ws' (assign_all ws obj)"
  by (simp add: assign_all_def)

lemma distinct_assign_all:
  "distinct (map fst obj) \<Longrightarrow> distinct (map fst (assign_all ws obj))"
  by (induction ws arbitrary: obj) (auto simp: distinct_obj_put)

lemma map_of_assign_all:
  assumes "distinct (map fst ws)" and "proto_key \<notin> fst ` set ws"
  shows "map_of (assign_all ws obj) = map_of obj ++ map_of ws"
  using assms
proof (induction ws arbitrary: obj)
  case Nil
  show ?case by simp
next
  case (Cons w ws)
  obtain k v where w: "w = (k, v)" by (cases w)
  from Cons.prems w have k: "k \<noteq> proto_key" "k \<notin> dom (map_of ws)"
    by (auto simp: dom_map_of_conv_image_fst)
  from Cons.prems have "map_of (assign_all ws (obj_put k v obj))
      = map_of (obj_put k v obj) ++ map_of ws"
    by (intro Cons.IH) auto
  also have "\<dots> = (map_of obj)(k \<mapsto> v) ++ map_of ws"
    using k by (simp add: map_of_obj_put)
  also have "\<dots> = map_of obj ++ map_of ((k, v) # ws)"
    using k by (auto simp: map_add_def fun_eq_iff dom_def split: option.splits)
  finally show ?case unfolding w assign_all_Cons .
qed

lemma dom_assign_all_mono:
  "map_of obj k \<noteq> None \<Longrightarrow> map_of (assign_all ws obj) k \<noteq> None"
  by (induction ws arbitrary: obj) (auto simp: map_of_obj_put)

section \<open>The skin tone modifiers\<close>

lemma modifiers_eval:
  "SKIN_TONE_MODIFIERS =
     [[55356, 57339], [55356, 57340], [55356, 57341], [55356, 57342], [55356, 57343]]"
  by (simp add: SKIN_TONE_MODIFIERS_def utf16_def)

lemma modifiers_count: "length SKIN_TONE_MODIFIERS = 5" "distinct SKIN_TONE_MODIFIERS"
  by (simp_all add: modifiers_eval)

lemma modifier_pairs_count:
  "length modifier_pairs = 25" "distinct (SKIN_TONE_MODIFIERS @ modifier_pairs)"
  by (simp_all add: modifier_pairs_def modifiers_eval)

lemma modifier_shape:
  "m \<in> set SKIN_TONE_MODIFIERS \<Longrightarrow> length m = 2 \<and> last m \<noteq> 95"
  by (auto simp: modifiers_eval)

lemma pair_shape:
  "p \<in> set modifier_pairs \<Longrightarrow> length p = 4 \<and> last p \<noteq> 95"
  by (auto simp: modifier_pairs_def modifiers_eval)

lemma pair_mem:
  "m1 \<in> set SKIN_TONE_MODIFIERS \<Longrightarrow> m2 \<in> set SKIN_TONE_MODIFIERS \<Longrightarrow>
     m1 @ m2 \<in> set modifier_pairs"
  by (auto simp: modifier_pairs_def)

lemma proto_key_last: "proto_key \<noteq> [] \<and> last proto_key = 95"
  by (simp add: proto_key_def js_def)

lemma suffixed_not_proto:
  assumes "s \<in> set (SKIN_TONE_MODIFIERS @ modifier_pairs)"
  shows "e @ s \<noteq> proto_key" and "e @ s \<noteq> e"
proof -
  from assms have s: "s \<noteq> [] \<and> last s \<noteq> 95"
    using modifier_shape [of s] pair_shape [of s] by auto
  then have "last (e @ s) \<noteq> 95" by simp
  then show "e @ s \<noteq> proto_key" using proto_key_last by metis
  from s show "e @ s \<noteq> e" by simp
qed

lemma keys_assign_all_fresh:
  assumes "distinct (map fst ws)" and "proto_key \<notin> fst ` set ws"
    and "fst ` set ws \<inter> fst ` set obj = {}"
  shows "map fst (assign_all ws obj) = map fst obj @ map fst ws"
  using assms
proof (induction ws arbitrary: obj)
  case Nil
  show ?case by simp
next
  case (Cons w ws)
  obtain k v where w: "w = (k, v)" by (cases w)
  from Cons.prems w have k: "k \<noteq> proto_key" "k \<notin> fst ` set obj" "k \<notin> fst ` set ws"
    by auto
  then have keys: "map fst (obj_put k v obj) = map fst obj @ [k]"
    by (simp add: obj_put_def update_keys)
  then have "fst ` set (obj_put k v obj) = insert k (fst ` set obj)"
    by (metis Un_insert_right append_Nil2 list.set(2) set_append set_map)
  with Cons.prems w k have "fst ` set ws \<inter> fst ` set (obj_put k v obj) = {}"
    by auto
  with Cons.prems have "map fst (assign_all ws (obj_put k v obj))
      = map fst (obj_put k v obj) @ map fst ws"
    by (intro Cons.IH) auto
  with keys show ?case by (simp add: w)
qed

section \<open>The variants of a skin-tone-capable row\<close>

lemma single_keys:
  "map fst (single_writes f e cps nm grp) = map ((@) e) SKIN_TONE_MODIFIERS"
  by (simp add: single_writes_def single_variant_def comp_def)

lemma dual_keys:
  "map fst (dual_writes f e cps nm grp) = map ((@) e) modifier_pairs"
  by (simp add: dual_writes_def dual_variant_def modifier_pairs_def map_concat comp_def)

lemma variant_keys_distinct:
  "distinct (map fst (single_writes f e cps nm grp @ dual_writes f e cps nm grp))"
proof -
  have "map fst (single_writes f e cps nm grp @ dual_writes f e cps nm grp)
      = map ((@) e) (SKIN_TONE_MODIFIERS @ modifier_pairs)"
    by (simp add: single_keys dual_keys)
  moreover have "distinct (map ((@) e) (SKIN_TONE_MODIFIERS @ modifier_pairs))"
    by (intro iffD2 [OF distinct_map] conjI modifier_pairs_count(2) inj_onI) simp
  ultimately show ?thesis by simp
qed

lemma variant_keys_suffixed:
  "k \<in> fst ` set (single_writes f e cps nm grp @ dual_writes f e cps nm grp) \<Longrightarrow>
     \<exists>s \<in> set (SKIN_TONE_MODIFIERS @ modifier_pairs). k = e @ s"
proof -
  assume "k \<in> fst ` set (single_writes f e cps nm grp @ dual_writes f e cps nm grp)"
  then have "k \<in> set (map fst (single_writes f e cps nm grp @ dual_writes f e cps nm grp))"
    by (simp only: set_map)
  then have "k \<in> set (map ((@) e) (SKIN_TONE_MODIFIERS @ modifier_pairs))"
    by (simp add: single_keys dual_keys)
  then show ?thesis by auto
qed

lemma variant_writes_sub:
  "set (variant_writes f e cps nm grp)
     \<subseteq> set (single_writes f e cps nm grp @ dual_writes f e cps nm grp)"
  by (auto simp: variant_writes_def)

lemma variant_writes_distinct: "distinct (map fst (variant_writes f e cps nm grp))"
  using variant_keys_distinct [of f e cps nm grp]
  by (auto simp: variant_writes_def)

lemma variant_writes_not_proto:
  "k \<in> fst ` set (variant_writes f e cps nm grp) \<Longrightarrow> k \<noteq> proto_key \<and> k \<noteq> e"
proof -
  assume "k \<in> fst ` set (variant_writes f e cps nm grp)"
  with variant_writes_sub [of f e cps nm grp]
  have "k \<in> fst ` set (single_writes f e cps nm grp @ dual_writes f e cps nm grp)"
    by blast
  then obtain s where "s \<in> set (SKIN_TONE_MODIFIERS @ modifier_pairs)" "k = e @ s"
    using variant_keys_suffixed by blast
  then show ?thesis using suffixed_not_proto [of s e] by simp
qed

lemma map_of_after_row:
  "map_of (assign_all (row_writes f e cps nm grp) obj) =
     map_of (obj_put e (base_record f cps nm grp) obj) ++ map_of (variant_writes f e cps nm grp)"
proof -
  have "proto_key \<notin> fst ` set (variant_writes f e cps nm grp)"
    using variant_writes_not_proto [of proto_key f e cps nm grp] by blast
  then show ?thesis
    by (simp add: row_writes_def map_of_assign_all variant_writes_distinct)
qed

section \<open>Variants and their base records\<close>

lemma variant_writes_keys:
  "map fst (variant_writes f e cps nm grp) =
     (if hasSkinToneSupport f nm
      then map ((@) e)
             (SKIN_TONE_MODIFIERS @ (if hasDualSkinToneSupport f nm then modifier_pairs else []))
      else [])"
  by (simp add: variant_writes_def single_keys dual_keys)

lemma variant_writes_records:
  "(k, d) \<in> set (variant_writes f e cps nm grp) \<Longrightarrow>
     is_variant_record d \<and> base_emoji d = Some e"
  by (auto simp: variant_writes_def single_writes_def dual_writes_def single_variant_def
        dual_variant_def is_variant_record_def split: if_splits)

lemma base_record_plain: "\<not> is_variant_record (base_record f cps nm grp)"
  by (simp add: base_record_def is_variant_record_def)

text \<open>What one row does to the mapping, in terms of its key and its variant keys.\<close>

lemma parse_row_cases:
  assumes "parse_row f r obj = Inr obj'"
  obtains (skipped) "row_emoji r = None" "row_variant_keys f r = []" "obj' = obj"
  | (read) e cps nm grp where "row_emoji r = Some e"
      "row_variant_keys f r = map fst (variant_writes f e cps nm grp)"
      "obj' = assign_all (row_writes f e cps nm grp) obj"
proof (cases "row_emoji r")
  case None
  with assms have "obj' = obj"
    by (auto simp: parse_row_def row_emoji_def split: option.splits sum.splits if_splits)
  with None show ?thesis
    by (intro skipped) (simp_all add: row_variant_keys_def)
next
  case (Some e)
  then obtain c n g where cells: "codeCell r = Some c" "nameCell r = Some n"
      "groupCell r = Some g" "fromCodePoint (parse_code c) = Inr e"
    by (auto simp: row_emoji_def split: option.splits sum.splits if_splits)
  with assms have "obj' = assign_all (row_writes f e (parse_code c) (trim n) (trim g)) obj"
    by (simp add: parse_row_def)
  moreover from cells Some
  have "row_variant_keys f r = map fst (variant_writes f e (parse_code c) (trim n) (trim g))"
    by (simp add: row_variant_keys_def variant_writes_keys)
  ultimately show ?thesis using Some by (intro read)
qed

lemma parse_row_distinct:
  "parse_row f r obj = Inr obj' \<Longrightarrow> distinct (map fst obj) \<Longrightarrow> distinct (map fst obj')"
  by (erule parse_row_cases) (simp_all add: distinct_assign_all)

lemma parse_rows_distinct:
  "parse_rows f rows obj = Inr obj' \<Longrightarrow> distinct (map fst obj) \<Longrightarrow> distinct (map fst obj')"
proof (induction rows arbitrary: obj)
  case Nil
  then show ?case by simp
next
  case (Cons r rows)
  then show ?case
    by (auto split: sum.splits dest: parse_row_distinct)
qed

lemma after_row_lookup:
  assumes "obj' = assign_all (row_writes f e cps nm grp) obj"
  shows "map_of obj' k =
     (case map_of (variant_writes f e cps nm grp) k of
        Some d \<Rightarrow> Some d
      | None \<Rightarrow> if e \<noteq> proto_key \<and> k = e then Some (base_record f cps nm grp)
                else map_of obj k)"
  unfolding assms map_of_after_row
  by (simp add: map_add_def map_of_obj_put split: option.splits)

lemma variant_lookup_facts:
  assumes "map_of (variant_writes f e cps nm grp) k = Some d"
  shows "is_variant_record d" and "base_emoji d = Some e" and "k \<noteq> e"
    and "k \<in> set (map fst (variant_writes f e cps nm grp))"
proof -
  from assms have mem: "(k, d) \<in> set (variant_writes f e cps nm grp)"
    by (rule map_of_SomeD)
  then show "is_variant_record d" and "base_emoji d = Some e"
    using variant_writes_records by blast+
  from mem have "k \<in> fst ` set (variant_writes f e cps nm grp)"
    by (metis fst_conv image_eqI)
  then show "k \<noteq> e" and "k \<in> set (map fst (variant_writes f e cps nm grp))"
    using variant_writes_not_proto by auto
qed

lemma base_not_variant_key:
  "map_of (variant_writes f e cps nm grp) e = None"
proof (cases "map_of (variant_writes f e cps nm grp) e")
  case None
  then show ?thesis .
next
  case (Some d)
  then have "e \<noteq> e" by (rule variant_lookup_facts(3))
  then show ?thesis by simp
qed

lemma present_step:
  assumes row: "parse_row f r obj = Inr obj'"
    and inv: "present_inv (map_of obj)"
    and proto: "row_emoji r \<noteq> Some proto_key \<or> row_variant_keys f r = []"
  shows "present_inv (map_of obj')"
  using row
proof (cases rule: parse_row_cases)
  case skipped
  with inv show ?thesis by simp
next
  case (read e cps nm grp)
  note lk = after_row_lookup [OF read(3)]
  show ?thesis
    unfolding present_inv_def
  proof (intro allI impI)
    fix k d
    assume a: "map_of obj' k = Some d \<and> is_variant_record d"
    show "\<exists>b. base_emoji d = Some b \<and> map_of obj' b \<noteq> None"
    proof (cases "map_of (variant_writes f e cps nm grp) k")
      case (Some d')
      with a lk [of k] have d: "d' = d" by simp
      from Some have be: "base_emoji d' = Some e"
        and key: "k \<in> set (map fst (variant_writes f e cps nm grp))"
        by (rule variant_lookup_facts)+
      from key read(2) have "row_variant_keys f r \<noteq> []" by auto
      with proto read(1) have "e \<noteq> proto_key" by auto
      then have "map_of obj' e \<noteq> None"
        using lk [of e] by (simp add: base_not_variant_key)
      with be d show ?thesis by blast
    next
      case None
      show ?thesis
      proof (cases "e \<noteq> proto_key \<and> k = e")
        case True
        with None a lk [of k] have "d = base_record f cps nm grp" by simp
        with a base_record_plain have False by blast
        then show ?thesis ..
      next
        case False
        with None a lk [of k] have "map_of obj k = Some d" by auto
        with a inv obtain b where b: "base_emoji d = Some b" "map_of obj b \<noteq> None"
          unfolding present_inv_def by blast
        from b(2) have "map_of obj' b \<noteq> None"
          using lk [of b] by (auto split: option.splits)
        with b(1) show ?thesis by blast
      qed
    qed
  qed
qed

lemma resolve_step:
  assumes row: "parse_row f r obj = Inr obj'"
    and inv: "resolve_inv (map_of obj) seen"
    and proto: "row_emoji r \<noteq> Some proto_key \<or> row_variant_keys f r = []"
    and miss: "list_all (\<lambda>k. k \<notin> set seen) (row_variant_keys f r)"
  shows "resolve_inv (map_of obj') (case row_emoji r of None \<Rightarrow> seen | Some e \<Rightarrow> e # seen)"
  using row
proof (cases rule: parse_row_cases)
  case skipped
  with inv show ?thesis by simp
next
  case (read e cps nm grp)
  note lk = after_row_lookup [OF read(3)]
  have "\<exists>b. base_emoji d = Some b \<and> b \<in> set (e # seen) \<and>
          (\<exists>bd. map_of obj' b = Some bd \<and> \<not> is_variant_record bd)"
    if a: "map_of obj' k = Some d \<and> is_variant_record d" for k d
  proof (cases "map_of (variant_writes f e cps nm grp) k")
    case (Some d')
    with a lk [of k] have d: "d' = d" by simp
    from Some have be: "base_emoji d' = Some e"
      and key: "k \<in> set (map fst (variant_writes f e cps nm grp))"
      by (rule variant_lookup_facts)+
    from key read(2) have "row_variant_keys f r \<noteq> []" by auto
    with proto read(1) have "e \<noteq> proto_key" by auto
    then have "map_of obj' e = Some (base_record f cps nm grp)"
      using lk [of e] by (simp add: base_not_variant_key)
    with be d base_record_plain show ?thesis by auto
  next
    case None
    show ?thesis
    proof (cases "e \<noteq> proto_key \<and> k = e")
      case True
      with None a lk [of k] have "d = base_record f cps nm grp" by simp
      with a base_record_plain have False by blast
      then show ?thesis ..
    next
      case False
      with None a lk [of k] have "map_of obj k = Some d" by auto
      with a inv obtain b bd where b: "base_emoji d = Some b" "b \<in> set seen"
          "map_of obj b = Some bd" "\<not> is_variant_record bd"
        unfolding resolve_inv_def by blast
      from b(2) miss read(2) have "b \<notin> set (map fst (variant_writes f e cps nm grp))"
        by (auto simp: list_all_iff)
      then have "map_of (variant_writes f e cps nm grp) b = None"
        by (simp add: map_of_eq_None_iff)
      then have "map_of obj' b =
          (if e \<noteq> proto_key \<and> b = e then Some (base_record f cps nm grp) else map_of obj b)"
        using lk [of b] by simp
      with b base_record_plain show ?thesis by auto
    qed
  qed
  then show ?thesis
    unfolding resolve_inv_def read(1) option.case by blast
qed

lemma parse_rows_present:
  "parse_rows f rows obj = Inr obj' \<Longrightarrow> present_inv (map_of obj) \<Longrightarrow>
     no_capable_proto f rows \<Longrightarrow> present_inv (map_of obj')"
proof (induction rows arbitrary: obj)
  case Nil
  then show ?case by simp
next
  case (Cons r rows)
  from Cons.prems(1) obtain obj1 where r: "parse_row f r obj = Inr obj1"
    and rest: "parse_rows f rows obj1 = Inr obj'"
    by (auto split: sum.splits)
  from Cons.prems(3) have p: "row_emoji r \<noteq> Some proto_key \<or> row_variant_keys f r = []"
    and ps: "no_capable_proto f rows"
    by (simp_all add: no_capable_proto_def)
  from present_step [OF r Cons.prems(2) p] rest ps show ?case
    by (intro Cons.IH)
qed

lemma parse_rows_resolve:
  "parse_rows f rows obj = Inr obj' \<Longrightarrow> resolve_inv (map_of obj) seen \<Longrightarrow>
     no_capable_proto f rows \<Longrightarrow> late_variants_miss f seen rows \<Longrightarrow>
     \<exists>seen'. resolve_inv (map_of obj') seen'"
proof (induction rows arbitrary: obj seen)
  case Nil
  then show ?case by auto
next
  case (Cons r rows)
  from Cons.prems(1) obtain obj1 where r: "parse_row f r obj = Inr obj1"
    and rest: "parse_rows f rows obj1 = Inr obj'"
    by (auto split: sum.splits)
  from Cons.prems(3) have p: "row_emoji r \<noteq> Some proto_key \<or> row_variant_keys f r = []"
    and ps: "no_capable_proto f rows"
    by (simp_all add: no_capable_proto_def)
  from Cons.prems(4) have m: "list_all (\<lambda>k. k \<notin> set seen) (row_variant_keys f r)"
    and ms: "late_variants_miss f (case row_emoji r of None \<Rightarrow> seen | Some e \<Rightarrow> e # seen) rows"
    by simp_all
  from resolve_step [OF r Cons.prems(2) p m] rest ps ms show ?case
    by (intro Cons.IH)
qed

lemma bases_present_iff:
  "distinct (map fst obj) \<Longrightarrow> bases_present obj \<longleftrightarrow> present_inv (map_of obj)"
  unfolding bases_present_def present_inv_def list_all_iff
  by (auto split: option.splits) (metis map_of_SomeD option.distinct(1) option.inject)+

lemma variants_resolve_if:
  "distinct (map fst obj) \<Longrightarrow> resolve_inv (map_of obj) seen \<Longrightarrow> variants_resolve obj"
  unfolding variants_resolve_def resolve_inv_def list_all_iff
  by (fastforce split: option.splits)

text \<open>
  C4, as the code has it. In the mapping that \<^verbatim>\<open>parseEmojiData\<close> returns, the \<open>base_emoji\<close>
  of every variant record is a key of the mapping, provided no skin-tone-capable row has
  the key \<^verbatim>\<open>__proto__\<close> (assigning to that key stores nothing). The record at that key
  is not a variant provided, in addition, no row writes a variant at the emoji key of an
  earlier row. Rows whose own key repeats an earlier base or variant key are allowed:
  the later record replaces the earlier one.
\<close>

theorem C4_variants_point_to_bases:
  assumes "parseEmojiData f rows = Inr emojiData"
    and "no_capable_proto f rows"
  shows "bases_present emojiData \<and>
         (late_variants_miss f [] rows \<longrightarrow> variants_resolve emojiData)"
proof (intro conjI impI)
  from assms(1) have rows: "parse_rows f rows [] = Inr emojiData"
    by (simp add: parseEmojiData_def)
  then have dist: "distinct (map fst emojiData)"
    by (rule parse_rows_distinct) simp
  have "present_inv (map_of [])"
    by (simp add: present_inv_def)
  with rows have "present_inv (map_of emojiData)"
    using assms(2) by (rule parse_rows_present)
  with dist show "bases_present emojiData"
    by (simp add: bases_present_iff)
  assume miss: "late_variants_miss f [] rows"
  have "resolve_inv (map_of []) []"
    by (simp add: resolve_inv_def)
  with rows obtain seen where "resolve_inv (map_of emojiData) seen"
    using assms(2) miss parse_rows_resolve by blast
  with dist show "variants_resolve emojiData"
    by (rule variants_resolve_if)
qed

lemmas invariant_defs =
  row_emoji_def row_variant_keys_def no_capable_proto_def bases_present_def
  variants_resolve_def is_variant_record_def waving_row_def waving_light_row_def

text \<open>
  The waving hand followed by the row of its light skin tone: the second row's key is the
  key of a variant of the first, and its record replaces that variant.
\<close>

theorem C4_later_row_wins_witness:
  "no_capable_proto Part_000 [waving_row, waving_light_row] \<and>
   late_variants_miss Part_000 [] [waving_row, waving_light_row] \<and>
   (\<exists>emojiData.
      parseEmojiData Part_000 [waving_row, waving_light_row] = Inr emojiData \<and>
      bases_present emojiData \<and> variants_resolve emojiData \<and>
      map_of emojiData (utf16 128075 @ utf16 127995) =
        Some \<lparr>name = js ''waving hand: light skin tone'', group = js ''People & Body'',
              skin_tone_support = True, dual_skin_tone_support = Some False,
              is_variant = None, base_emoji = None,
              code_points = Some [Some 128075, Some 127995]\<rparr>)"
proof -
  have p: "no_capable_proto Part_000 [waving_row, waving_light_row]"
    by (simp add: invariant_defs str_defs num_defs row_defs)
  have m: "late_variants_miss Part_000 [] [waving_row, waving_light_row]"
    by (simp add: invariant_defs str_defs num_defs row_defs)
  have "\<exists>emojiData.
      parseEmojiData Part_000 [waving_row, waving_light_row] = Inr emojiData \<and>
      map_of emojiData (utf16 128075 @ utf16 127995) =
        Some \<lparr>name = js ''waving hand: light skin tone'', group = js ''People & Body'',
              skin_tone_support = True, dual_skin_tone_support = Some False,
              is_variant = None, base_emoji = None,
              code_points = Some [Some 128075, Some 127995]\<rparr>"
    by (simp add: waving_row_def waving_light_row_def str_defs num_defs row_defs)
  then obtain emojiData where
    e: "parseEmojiData Part_000 [waving_row, waving_light_row] = Inr emojiData"
    and l: "map_of emojiData (utf16 128075 @ utf16 127995) =
        Some \<lparr>name = js ''waving hand: light skin tone'', group = js ''People & Body'',
              skin_tone_support = True, dual_skin_tone_support = Some False,
              is_variant = None, base_emoji = None,
              code_points = Some [Some 128075, Some 127995]\<rparr>"
    by blast
  from C4_variants_point_to_bases [OF e p] m
  have "bases_present emojiData" "variants_resolve emojiData"
    by blast+
  with p m e l show ?thesis by blast
qed

text \<open>
  C4 as stated fails when the two rows come in the other order. The waving hand then
  writes its light variant at the key of the first row, so that key holds a variant; and
  the variants that the first row wrote still name it as their base.
\<close>

theorem C4_base_overwritten_counterexample:
  "\<not> isl (parseEmojiData Part_000 [waving_light_row, waving_row]) \<and>
   map_of (projr (parseEmojiData Part_000 [waving_light_row, waving_row]))
       (utf16 128075 @ utf16 127995 @ utf16 127995) =
     Some \<lparr>name = js ''waving hand: light skin tone (light skin tone)'',
           group = js ''People & Body'',
           skin_tone_support = True, dual_skin_tone_support = None,
           is_variant = Some True, base_emoji = Some (utf16 128075 @ utf16 127995),
           code_points = Some [Some 128075, Some 127995, Some 127995]\<rparr> \<and>
   map_of (projr (parseEmojiData Part_000 [waving_light_row, waving_row]))
       (utf16 128075 @ utf16 127995) =
     Some \<lparr>name = js ''waving hand (light skin tone)'', group = js ''People & Body'',
           skin_tone_support = True, dual_skin_tone_support = None,
           is_variant = Some True, base_emoji = Some (utf16 128075),
           code_points = Some [Some 128075, Some 127995]\<rparr> \<and>
   \<not> variants_resolve (projr (parseEmojiData Part_000 [waving_light_row, waving_row]))"
  by (simp add: invariant_defs str_defs num_defs row_defs)

section \<open>The variants in the returned mapping\<close>

text \<open>The table is read row by row: the rows before a row, the row, the rows after it.\<close>

lemma parse_rows_append:
  "parse_rows f (xs @ ys) obj =
     (case parse_rows f xs obj of Inl e \<Rightarrow> Inl e | Inr obj' \<Rightarrow> parse_rows f ys obj')"
  by (induction xs arbitrary: obj) (auto split: sum.splits)

lemma parse_rows_split:
  assumes "parse_rows f (pre @ r # post) obj = Inr emojiData"
  obtains obj0 obj1 where "parse_rows f pre obj = Inr obj0"
    and "parse_row f r obj0 = Inr obj1" and "parse_rows f post obj1 = Inr emojiData"
  using assms by (auto simp: parse_rows_append split: sum.splits)

lemma kept_row:
  assumes "parse_row f r obj = Inr obj'" and "k \<notin> set (written_keys f r)"
  shows "map_of obj' k = map_of obj k"
  using assms(1)
proof (cases rule: parse_row_cases)
  case skipped
  then show ?thesis by simp
next
  case (read e cps nm grp)
  from assms(2) read(1,2) have ne: "k \<noteq> e"
    and "k \<notin> set (map fst (variant_writes f e cps nm grp))"
    by (auto simp: written_keys_def)
  then have "map_of (variant_writes f e cps nm grp) k = None"
    by (simp add: map_of_eq_None_iff)
  with after_row_lookup [OF read(3), of k] ne show ?thesis by simp
qed

lemma kept_rows:
  "parse_rows f post obj = Inr obj' \<Longrightarrow> later_rows_keep f ks post \<Longrightarrow> k \<in> set ks \<Longrightarrow>
     map_of obj' k = map_of obj k"
proof (induction post arbitrary: obj)
  case Nil
  then show ?case by simp
next
  case (Cons r post)
  from Cons.prems(1) obtain obj1 where r: "parse_row f r obj = Inr obj1"
    and rest: "parse_rows f post obj1 = Inr obj'"
    by (auto split: sum.splits)
  from Cons.prems(2,3) have "k \<notin> set (written_keys f r)" and keep: "later_rows_keep f ks post"
    by (auto simp: later_rows_keep_def list_all_iff)
  with r have "map_of obj1 k = map_of obj k"
    by (intro kept_row)
  moreover from rest keep Cons.prems(3) have "map_of obj' k = map_of obj1 k"
    by (rule Cons.IH)
  ultimately show ?case by simp
qed

lemma variant_writes_shape:
  assumes "(k, d) \<in> set (variant_writes f e cps nm grp)"
  shows "\<exists>s. base_emoji d = Some e \<and> k = e @ s \<and>
           (dual_skin_tone_support d = None \<and> s \<in> set SKIN_TONE_MODIFIERS \<or>
            dual_skin_tone_support d = Some True \<and> s \<in> set modifier_pairs)"
proof -
  from assms consider (single) "(k, d) \<in> set (single_writes f e cps nm grp)"
    | (dual) "(k, d) \<in> set (dual_writes f e cps nm grp)"
    using variant_writes_sub [of f e cps nm grp] by auto
  then show ?thesis
  proof cases
    case single
    then obtain m where "m \<in> set SKIN_TONE_MODIFIERS"
      "(k, d) = single_variant f e cps nm grp m"
      by (auto simp: single_writes_def)
    then have "base_emoji d = Some e \<and> k = e @ m \<and>
        (dual_skin_tone_support d = None \<and> m \<in> set SKIN_TONE_MODIFIERS \<or>
         dual_skin_tone_support d = Some True \<and> m \<in> set modifier_pairs)"
      by (simp add: single_variant_def)
    then show ?thesis ..
  next
    case dual
    then obtain m1 m2 where m: "m1 \<in> set SKIN_TONE_MODIFIERS" "m2 \<in> set SKIN_TONE_MODIFIERS"
      "(k, d) = dual_variant f e cps nm grp m1 m2"
      by (auto simp: dual_writes_def)
    from m(1,2) have "m1 @ m2 \<in> set modifier_pairs"
      by (rule pair_mem)
    with m(3) have "base_emoji d = Some e \<and> k = e @ (m1 @ m2) \<and>
        (dual_skin_tone_support d = None \<and> m1 @ m2 \<in> set SKIN_TONE_MODIFIERS \<or>
         dual_skin_tone_support d = Some True \<and> m1 @ m2 \<in> set modifier_pairs)"
      by (simp add: dual_variant_def)
    then show ?thesis ..
  qed
qed

lemma shape_step:
  assumes row: "parse_row f r obj = Inr obj'" and inv: "shape_inv (map_of obj)"
  shows "shape_inv (map_of obj')"
  using row
proof (cases rule: parse_row_cases)
  case skipped
  with inv show ?thesis by simp
next
  case (read e cps nm grp)
  note lk = after_row_lookup [OF read(3)]
  show ?thesis
    unfolding shape_inv_def
  proof (intro allI impI)
    fix k d
    assume a: "map_of obj' k = Some d \<and> is_variant_record d"
    show "\<exists>b s. base_emoji d = Some b \<and> k = b @ s \<and>
           (dual_skin_tone_support d = None \<and> s \<in> set SKIN_TONE_MODIFIERS \<or>
            dual_skin_tone_support d = Some True \<and> s \<in> set modifier_pairs)"
    proof (cases "map_of (variant_writes f e cps nm grp) k")
      case (Some d')
      with a lk [of k] have d: "d' = d" by simp
      from Some have "(k, d') \<in> set (variant_writes f e cps nm grp)"
        by (rule map_of_SomeD)
      with d show ?thesis
        using variant_writes_shape [of k d f e cps nm grp] by blast
    next
      case None
      show ?thesis
      proof (cases "e \<noteq> proto_key \<and> k = e")
        case True
        with None a lk [of k] have "d = base_record f cps nm grp" by simp
        with a base_record_plain have False by blast
        then show ?thesis ..
      next
        case False
        with None a lk [of k] have "map_of obj k = Some d" by auto
        with a inv show ?thesis
          unfolding shape_inv_def by blast
      qed
    qed
  qed
qed

lemma parse_rows_shape:
  "parse_rows f rows obj = Inr obj' \<Longrightarrow> shape_inv (map_of obj) \<Longrightarrow> shape_inv (map_of obj')"
proof (induction rows arbitrary: obj)
  case Nil
  then show ?case by simp
next
  case (Cons r rows)
  from Cons.prems(1) obtain obj1 where r: "parse_row f r obj = Inr obj1"
    and rest: "parse_rows f rows obj1 = Inr obj'"
    by (auto split: sum.splits)
  from shape_step [OF r Cons.prems(2)] rest show ?case
    by (intro Cons.IH)
qed

lemma no_variant_step:
  assumes row: "parse_row f r obj = Inr obj'"
    and inv: "\<forall>k d. map_of obj k = Some d \<and> is_variant_record d \<longrightarrow> base_emoji d \<noteq> Some e"
    and other: "row_emoji r \<noteq> Some e \<or> row_variant_keys f r = []"
  shows "\<forall>k d. map_of obj' k = Some d \<and> is_variant_record d \<longrightarrow> base_emoji d \<noteq> Some e"
  using row
proof (cases rule: parse_row_cases)
  case skipped
  with inv show ?thesis by simp
next
  case (read e' cps nm grp)
  note lk = after_row_lookup [OF read(3)]
  show ?thesis
  proof (intro allI impI)
    fix k d
    assume a: "map_of obj' k = Some d \<and> is_variant_record d"
    show "base_emoji d \<noteq> Some e"
    proof (cases "map_of (variant_writes f e' cps nm grp) k")
      case (Some d')
      with a lk [of k] have d: "d' = d" by simp
      from Some have be: "base_emoji d' = Some e'"
        and key: "k \<in> set (map fst (variant_writes f e' cps nm grp))"
        by (rule variant_lookup_facts)+
      from key read(2) have "row_variant_keys f r \<noteq> []" by auto
      with other read(1) have "e' \<noteq> e" by auto
      with be d show ?thesis by simp
    next
      case None
      show ?thesis
      proof (cases "e' \<noteq> proto_key \<and> k = e'")
        case True
        with None a lk [of k] have "d = base_record f cps nm grp" by simp
        with a base_record_plain have False by blast
        then show ?thesis ..
      next
        case False
        with None a lk [of k] have "map_of obj k = Some d" by auto
        with a inv show ?thesis by blast
      qed
    qed
  qed
qed

lemma parse_rows_no_variant:
  "parse_rows f rows obj = Inr obj' \<Longrightarrow>
   \<forall>k d. map_of obj k = Some d \<and> is_variant_record d \<longrightarrow> base_emoji d \<noteq> Some e \<Longrightarrow>
   list_all (\<lambda>r. row_emoji r \<noteq> Some e \<or> row_variant_keys f r = []) rows \<Longrightarrow>
   \<forall>k d. map_of obj' k = Some d \<and> is_variant_record d \<longrightarrow> base_emoji d \<noteq> Some e"
proof (induction rows arbitrary: obj)
  case Nil
  then show ?case by simp
next
  case (Cons r rows)
  from Cons.prems(1) obtain obj1 where r: "parse_row f r obj = Inr obj1"
    and rest: "parse_rows f rows obj1 = Inr obj'"
    by (auto split: sum.splits)
  from Cons.prems(3) have o: "row_emoji r \<noteq> Some e \<or> row_variant_keys f r = []"
    and os: "list_all (\<lambda>r. row_emoji r \<noteq> Some e \<or> row_variant_keys f r = []) rows"
    by simp_all
  from no_variant_step [OF r Cons.prems(2) o] rest os show ?case
    by (intro Cons.IH)
qed

lemma variants_of_mem:
  assumes "distinct (map fst emojiData)"
  shows "(k, d) \<in> set (variants_of e emojiData) \<longleftrightarrow>
     map_of emojiData k = Some d \<and> is_variant_record d \<and> base_emoji d = Some e"
  using assms by (auto simp: variants_of_def is_variant_record_def dest: map_of_SomeD)

lemma distinct_variants_of:
  "distinct (map fst emojiData) \<Longrightarrow> distinct (map fst (variants_of e emojiData))"
  by (simp add: variants_of_def distinct_map_filter)

lemma count_by_keys:
  assumes "distinct (map fst xs)" and "distinct ks" and "fst ` set xs = set ks"
  shows "length xs = length ks"
proof -
  have "length xs = length (map fst xs)" by simp
  also have "\<dots> = card (set (map fst xs))"
    using assms(1) by (simp only: distinct_card)
  also have "\<dots> = card (set ks)"
    using assms(3) by simp
  also have "\<dots> = length ks"
    using assms(2) by (rule distinct_card)
  finally show ?thesis .
qed

lemma written_variant_lookup:
  assumes "obj' = assign_all (row_writes f e cps nm grp) obj"
    and "(k, v) \<in> set (variant_writes f e cps nm grp)"
  shows "map_of obj' k = Some v"
proof -
  from assms(2) have "map_of (variant_writes f e cps nm grp) k = Some v"
    using variant_writes_distinct [of f e cps nm grp] by (intro map_of_is_SomeI)
  with after_row_lookup [OF assms(1), of k] show ?thesis by simp
qed

lemma parse_row_read:
  assumes "parse_row f r obj = Inr obj'"
    and "codeCell r = Some c" and "nameCell r = Some n" and "groupCell r = Some g"
  obtains e where "fromCodePoint (parse_code c) = Inr e"
    and "row_emoji r = Some e"
    and "row_variant_keys f r = map fst (variant_writes f e (parse_code c) (trim n) (trim g))"
    and "obj' = assign_all (row_writes f e (parse_code c) (trim n) (trim g)) obj"
proof (cases "fromCodePoint (parse_code c)")
  case (Inl err)
  with assms have False by (simp add: parse_row_def)
  then show ?thesis ..
next
  case (Inr e)
  with assms have "obj' = assign_all (row_writes f e (parse_code c) (trim n) (trim g)) obj"
    by (simp add: parse_row_def)
  moreover from Inr assms(2-4) have "row_emoji r = Some e"
    by (simp add: row_emoji_def)
  moreover from this assms(3)
  have "row_variant_keys f r = map fst (variant_writes f e (parse_code c) (trim n) (trim g))"
    by (simp add: row_variant_keys_def variant_writes_keys)
  ultimately show ?thesis using Inr by (intro that)
qed

lemma shape_inv_empty: "shape_inv (map_of [])"
  by (simp add: shape_inv_def)

lemma modifier_not_pair:
  "s \<in> set SKIN_TONE_MODIFIERS \<Longrightarrow> s \<notin> set modifier_pairs"
  using modifier_pairs_count(2) by auto

text \<open>
  C1, as the code has it. Take a row with its three cells whose trimmed name is
  skin-tone-capable, anywhere in the table, and suppose that \<^verbatim>\<open>parseEmojiData\<close> returns
  a mapping and that no later row assigns one of the variant keys of this row, be it as
  its own emoji key or as the key of one of its variants. Then the code text of the row
  is read as an emoji \<open>e\<close>, and in the returned mapping: at \<open>e + modifier\<close>, for each
  of the five modifiers, stands the record named \<open>name (modifier name)\<close> with
  \<open>is_variant\<close> true and \<open>base_emoji = e\<close>; the single-tone variant records whose base
  is \<open>e\<close> are five, at exactly these keys; and when the name is dual-capable as well,
  at \<open>e + modifier1 + modifier2\<close>, for each ordered pair of modifiers, stands the
  dual-tone record, and the dual-tone variant records whose base is \<open>e\<close> are
  twenty-five, at exactly these keys.
\<close>

theorem C1_variants_in_result:
  assumes "parseEmojiData f (pre @ r # post) = Inr emojiData"
    and "codeCell r = Some c" and "nameCell r = Some n" and "groupCell r = Some g"
    and "hasSkinToneSupport f (trim n)"
    and "later_rows_keep f (row_variant_keys f r) post"
  shows "\<exists>e. fromCodePoint (parse_code c) = Inr e \<and>
     (\<forall>modifier \<in> set SKIN_TONE_MODIFIERS.
        map_of emojiData (e @ modifier) =
          Some \<lparr>name = trim n @ js '' ('' @ getSkinToneName modifier @ js '')'',
                group = trim g, skin_tone_support = True, dual_skin_tone_support = None,
                is_variant = Some True, base_emoji = Some e,
                code_points = stored_points f (parse_code c @ [codePointAt0 modifier])\<rparr>) \<and>
     length (single_tone_variants e emojiData) = 5 \<and>
     set (map fst (single_tone_variants e emojiData)) =
       set (map (\<lambda>modifier. e @ modifier) SKIN_TONE_MODIFIERS) \<and>
     (hasDualSkinToneSupport f (trim n) \<longrightarrow>
        (\<forall>modifier1 \<in> set SKIN_TONE_MODIFIERS. \<forall>modifier2 \<in> set SKIN_TONE_MODIFIERS.
           map_of emojiData (e @ modifier1 @ modifier2) =
             Some \<lparr>name = trim n @ js '' ('' @ getSkinToneName modifier1 @ js '' and ''
                            @ getSkinToneName modifier2 @ js '')'',
                   group = trim g, skin_tone_support = True,
                   dual_skin_tone_support = Some True,
                   is_variant = Some True, base_emoji = Some e,
                   code_points =
                     stored_points f
                       (parse_code c @ [codePointAt0 modifier1, codePointAt0 modifier2])\<rparr>) \<and>
        length (dual_tone_variants e emojiData) = 25 \<and>
        set (map fst (dual_tone_variants e emojiData)) =
          set (concat (map (\<lambda>modifier1.
                              map (\<lambda>modifier2. e @ modifier1 @ modifier2) SKIN_TONE_MODIFIERS)
                         SKIN_TONE_MODIFIERS)))"
proof -
  define cps nm grp where "cps = parse_code c" and "nm = trim n" and "grp = trim g"
  from assms(1) have rows: "parse_rows f (pre @ r # post) [] = Inr emojiData"
    by (simp add: parseEmojiData_def)
  then obtain obj0 obj1 where row: "parse_row f r obj0 = Inr obj1"
    and rest: "parse_rows f post obj1 = Inr emojiData"
    by (rule parse_rows_split)
  from row assms(2-4) obtain e where e: "fromCodePoint (parse_code c) = Inr e"
    and keys: "row_variant_keys f r = map fst (variant_writes f e cps nm grp)"
    and obj1: "obj1 = assign_all (row_writes f e cps nm grp) obj0"
    unfolding cps_def nm_def grp_def by (rule parse_row_read)
  from rows have dist: "distinct (map fst emojiData)"
    by (rule parse_rows_distinct) simp
  from rows shape_inv_empty have shape: "shape_inv (map_of emojiData)"
    by (rule parse_rows_shape)
  have lookup: "map_of emojiData k = Some v"
    if w: "(k, v) \<in> set (variant_writes f e cps nm grp)" for k v
  proof -
    from w have "k \<in> set (row_variant_keys f r)"
      unfolding keys by (metis fst_conv image_eqI set_map)
    with rest assms(6) have "map_of emojiData k = map_of obj1 k"
      by (rule kept_rows)
    with written_variant_lookup [OF obj1 w] show ?thesis by simp
  qed
  have single: "map_of emojiData (e @ m) =
      Some \<lparr>name = nm @ js '' ('' @ getSkinToneName m @ js '')'',
            group = grp, skin_tone_support = True, dual_skin_tone_support = None,
            is_variant = Some True, base_emoji = Some e,
            code_points = stored_points f (cps @ [codePointAt0 m])\<rparr>"
    if "m \<in> set SKIN_TONE_MODIFIERS" for m
    using that assms(5)
    by (intro lookup) (auto simp: variant_writes_def single_writes_def single_variant_def nm_def)
  have single_keys: "set (map fst (single_tone_variants e emojiData)) =
      set (map (\<lambda>modifier. e @ modifier) SKIN_TONE_MODIFIERS)"
  proof (intro set_eqI iffI)
    fix k
    assume "k \<in> set (map fst (single_tone_variants e emojiData))"
    then obtain d where "(k, d) \<in> set (variants_of e emojiData)"
      and none: "dual_skin_tone_support d = None"
      by (auto simp: single_tone_variants_def)
    then have d: "map_of emojiData k = Some d" "is_variant_record d" "base_emoji d = Some e"
      by (simp_all add: variants_of_mem [OF dist])
    with shape none obtain s where "k = e @ s" "s \<in> set SKIN_TONE_MODIFIERS"
      unfolding shape_inv_def by fastforce
    then show "k \<in> set (map (\<lambda>modifier. e @ modifier) SKIN_TONE_MODIFIERS)"
      by simp
  next
    fix k
    assume "k \<in> set (map (\<lambda>modifier. e @ modifier) SKIN_TONE_MODIFIERS)"
    then obtain m where m: "m \<in> set SKIN_TONE_MODIFIERS" "k = e @ m"
      by auto
    from single [OF m(1)] m(2)
    have "(k, \<lparr>name = nm @ js '' ('' @ getSkinToneName m @ js '')'',
            group = grp, skin_tone_support = True, dual_skin_tone_support = None,
            is_variant = Some True, base_emoji = Some e,
            code_points = stored_points f (cps @ [codePointAt0 m])\<rparr>)
        \<in> set (single_tone_variants e emojiData)"
      by (simp add: single_tone_variants_def variants_of_mem [OF dist] is_variant_record_def)
    then show "k \<in> set (map fst (single_tone_variants e emojiData))"
      by (metis fst_conv image_eqI set_map)
  qed
  have single_dist: "distinct (map fst (single_tone_variants e emojiData))"
    using dist by (simp add: single_tone_variants_def variants_of_def distinct_map_filter)
  have "distinct (map (\<lambda>modifier. e @ modifier) SKIN_TONE_MODIFIERS)"
    using modifiers_count(2) by (simp add: distinct_map inj_on_def)
  with single_dist single_keys
  have "length (single_tone_variants e emojiData)
      = length (map (\<lambda>modifier. e @ modifier) SKIN_TONE_MODIFIERS)"
    by (intro count_by_keys) simp_all
  then have single_count: "length (single_tone_variants e emojiData) = 5"
    by (simp add: modifiers_count)
  have dual: "(\<forall>m1 \<in> set SKIN_TONE_MODIFIERS. \<forall>m2 \<in> set SKIN_TONE_MODIFIERS.
         map_of emojiData (e @ m1 @ m2) =
           Some \<lparr>name = nm @ js '' ('' @ getSkinToneName m1 @ js '' and ''
                          @ getSkinToneName m2 @ js '')'',
                 group = grp, skin_tone_support = True, dual_skin_tone_support = Some True,
                 is_variant = Some True, base_emoji = Some e,
                 code_points = stored_points f (cps @ [codePointAt0 m1, codePointAt0 m2])\<rparr>) \<and>
      length (dual_tone_variants e emojiData) = 25 \<and>
      set (map fst (dual_tone_variants e emojiData)) =
        set (concat (map (\<lambda>modifier1.
                            map (\<lambda>modifier2. e @ modifier1 @ modifier2) SKIN_TONE_MODIFIERS)
                       SKIN_TONE_MODIFIERS))"
    if cap: "hasDualSkinToneSupport f nm"
  proof -
    have two: "map_of emojiData (e @ m1 @ m2) =
           Some \<lparr>name = nm @ js '' ('' @ getSkinToneName m1 @ js '' and ''
                          @ getSkinToneName m2 @ js '')'',
                 group = grp, skin_tone_support = True, dual_skin_tone_support = Some True,
                 is_variant = Some True, base_emoji = Some e,
                 code_points = stored_points f (cps @ [codePointAt0 m1, codePointAt0 m2])\<rparr>"
      if "m1 \<in> set SKIN_TONE_MODIFIERS" "m2 \<in> set SKIN_TONE_MODIFIERS" for m1 m2
      using that assms(5) cap
      by (intro lookup)
         (auto simp: variant_writes_def dual_writes_def dual_variant_def nm_def)
    have pairs: "concat (map (\<lambda>modifier1.
                            map (\<lambda>modifier2. e @ modifier1 @ modifier2) SKIN_TONE_MODIFIERS)
                       SKIN_TONE_MODIFIERS) = map ((@) e) modifier_pairs"
      by (simp add: modifier_pairs_def map_concat comp_def)
    have dual_keys: "set (map fst (dual_tone_variants e emojiData)) =
        set (map ((@) e) modifier_pairs)"
    proof (intro set_eqI iffI)
      fix k
      assume "k \<in> set (map fst (dual_tone_variants e emojiData))"
      then obtain d where "(k, d) \<in> set (variants_of e emojiData)"
        and some: "dual_skin_tone_support d = Some True"
        by (auto simp: dual_tone_variants_def)
      then have d: "map_of emojiData k = Some d" "is_variant_record d" "base_emoji d = Some e"
        by (simp_all add: variants_of_mem [OF dist])
      with shape some obtain s where "k = e @ s" "s \<in> set modifier_pairs"
        unfolding shape_inv_def by fastforce
      then show "k \<in> set (map ((@) e) modifier_pairs)"
        by simp
    next
      fix k
      assume "k \<in> set (map ((@) e) modifier_pairs)"
      then obtain m1 m2 where m: "m1 \<in> set SKIN_TONE_MODIFIERS" "m2 \<in> set SKIN_TONE_MODIFIERS"
        "k = e @ m1 @ m2"
        by (auto simp: modifier_pairs_def)
      from two [OF m(1,2)] m(3)
      have "(k, \<lparr>name = nm @ js '' ('' @ getSkinToneName m1 @ js '' and ''
                          @ getSkinToneName m2 @ js '')'',
                 group = grp, skin_tone_support = True, dual_skin_tone_support = Some True,
                 is_variant = Some True, base_emoji = Some e,
                 code_points = stored_points f (cps @ [codePointAt0 m1, codePointAt0 m2])\<rparr>)
          \<in> set (dual_tone_variants e emojiData)"
        by (simp add: dual_tone_variants_def variants_of_mem [OF dist] is_variant_record_def)
      then show "k \<in> set (map fst (dual_tone_variants e emojiData))"
        by (metis fst_conv image_eqI set_map)
    qed
    have dual_dist: "distinct (map fst (dual_tone_variants e emojiData))"
      using dist by (simp add: dual_tone_variants_def variants_of_def distinct_map_filter)
    have "distinct (map ((@) e) modifier_pairs)"
      using modifier_pairs_count(2) by (simp add: distinct_map inj_on_def)
    with dual_dist dual_keys
    have "length (dual_tone_variants e emojiData) = length (map ((@) e) modifier_pairs)"
      by (intro count_by_keys) simp_all
    then have "length (dual_tone_variants e emojiData) = 25"
      by (simp add: modifier_pairs_count)
    with two dual_keys show ?thesis
      unfolding pairs by blast
  qed
  from e single single_count single_keys dual show ?thesis
    unfolding cps_def nm_def grp_def by blast
qed

text \<open>Without a row whose code text is rejected, the parse returns.\<close>

lemma parseEmojiData_returns:
  assumes "\<not> list_ex unreadable_row rows"
  shows "\<exists>emojiData. parseEmojiData f rows = Inr emojiData"
proof (cases "parseEmojiData f rows")
  case (Inl err)
  then have "\<exists>r \<in> set rows. unreadable_row r"
    by (simp add: parseEmojiData_def parse_rows_Inl_iff)
  with assms have False by (simp add: list_ex_iff)
  then show ?thesis ..
next
  case (Inr emojiData)
  then show ?thesis by blast
qed

lemmas variant_defs =
  written_keys_def later_rows_keep_def row_emoji_def row_variant_keys_def
  unreadable_row_def no_code_point_def modifier_pairs_def

text \<open>
  The handshake row between the waving hand and the grinning face: thirty variants, among
  them these two.
\<close>

theorem C1_handshake_witness:
  "codeCell handshake_row = Some (js ''1F91D'') \<and>
   nameCell handshake_row = Some (js ''handshake'') \<and>
   groupCell handshake_row = Some (js ''People & Body'') \<and>
   hasSkinToneSupport Part_000 (trim (js ''handshake'')) \<and>
   hasDualSkinToneSupport Part_000 (trim (js ''handshake'')) \<and>
   later_rows_keep Part_000 (row_variant_keys Part_000 handshake_row) [grinning_row] \<and>
   utf16 127995 \<in> set SKIN_TONE_MODIFIERS \<and> utf16 127999 \<in> set SKIN_TONE_MODIFIERS \<and>
   (\<exists>emojiData.
      parseEmojiData Part_000 ([waving_row] @ handshake_row # [grinning_row]) = Inr emojiData \<and>
      map_of emojiData (utf16 129309 @ utf16 127995) =
        Some \<lparr>name = js ''handshake (light skin tone)'', group = js ''People & Body'',
              skin_tone_support = True, dual_skin_tone_support = None,
              is_variant = Some True, base_emoji = Some (utf16 129309),
              code_points = Some [Some 129309, Some 127995]\<rparr> \<and>
      map_of emojiData (utf16 129309 @ utf16 127995 @ utf16 127999) =
        Some \<lparr>name = js ''handshake (light skin tone and dark skin tone)'',
              group = js ''People & Body'',
              skin_tone_support = True, dual_skin_tone_support = Some True,
              is_variant = Some True, base_emoji = Some (utf16 129309),
              code_points = Some [Some 129309, Some 127995, Some 127999]\<rparr> \<and>
      length (single_tone_variants (utf16 129309) emojiData) = 5 \<and>
      length (dual_tone_variants (utf16 129309) emojiData) = 25)"
proof -
  have c: "codeCell handshake_row = Some (js ''1F91D'')"
    and n: "nameCell handshake_row = Some (js ''handshake'')"
    and g: "groupCell handshake_row = Some (js ''People & Body'')"
    by (simp_all add: handshake_row_def)
  have e: "fromCodePoint (parse_code (js ''1F91D'')) = Inr (utf16 129309)"
    by (simp add: str_defs num_defs)
  have s: "hasSkinToneSupport Part_000 (trim (js ''handshake''))"
    by (simp add: hasSkinToneSupport_def skin_keywords_def str_defs)
  have d: "hasDualSkinToneSupport Part_000 (trim (js ''handshake''))"
    by (simp add: hasDualSkinToneSupport_def dual_keywords_def str_defs)
  have k: "later_rows_keep Part_000 (row_variant_keys Part_000 handshake_row) [grinning_row]"
    by (simp add: variant_defs handshake_row_def grinning_row_def hasSkinToneSupport_def
        hasDualSkinToneSupport_def skin_keywords_def dual_keywords_def
        SKIN_TONE_MODIFIERS_def str_defs num_defs)
  have m: "utf16 127995 \<in> set SKIN_TONE_MODIFIERS" "utf16 127999 \<in> set SKIN_TONE_MODIFIERS"
    by (simp_all add: SKIN_TONE_MODIFIERS_def)
  have "\<not> list_ex unreadable_row ([waving_row] @ handshake_row # [grinning_row])"
    by (simp add: variant_defs waving_row_def handshake_row_def grinning_row_def
        str_defs num_defs)
  then obtain emojiData where
    p: "parseEmojiData Part_000 ([waving_row] @ handshake_row # [grinning_row]) = Inr emojiData"
    using parseEmojiData_returns by blast
  from C1_variants_in_result [OF p c n g s k] e
  have r: "(\<forall>modifier \<in> set SKIN_TONE_MODIFIERS.
        map_of emojiData (utf16 129309 @ modifier) =
          Some \<lparr>name = trim (js ''handshake'') @ js '' ('' @ getSkinToneName modifier @ js '')'',
                group = trim (js ''People & Body''), skin_tone_support = True,
                dual_skin_tone_support = None,
                is_variant = Some True, base_emoji = Some (utf16 129309),
                code_points =
                  stored_points Part_000 (parse_code (js ''1F91D'') @ [codePointAt0 modifier])\<rparr>)"
    and l1: "length (single_tone_variants (utf16 129309) emojiData) = 5"
    and r2: "hasDualSkinToneSupport Part_000 (trim (js ''handshake'')) \<longrightarrow>
        (\<forall>modifier1 \<in> set SKIN_TONE_MODIFIERS. \<forall>modifier2 \<in> set SKIN_TONE_MODIFIERS.
           map_of emojiData (utf16 129309 @ modifier1 @ modifier2) =
             Some \<lparr>name = trim (js ''handshake'') @ js '' ('' @ getSkinToneName modifier1
                            @ js '' and '' @ getSkinToneName modifier2 @ js '')'',
                   group = trim (js ''People & Body''), skin_tone_support = True,
                   dual_skin_tone_support = Some True,
                   is_variant = Some True, base_emoji = Some (utf16 129309),
                   code_points =
                     stored_points Part_000
                       (parse_code (js ''1F91D'')
                          @ [codePointAt0 modifier1, codePointAt0 modifier2])\<rparr>) \<and>
        length (dual_tone_variants (utf16 129309) emojiData) = 25"
    by auto
  from r2 d have two: "\<forall>modifier1 \<in> set SKIN_TONE_MODIFIERS. \<forall>modifier2 \<in> set SKIN_TONE_MODIFIERS.
           map_of emojiData (utf16 129309 @ modifier1 @ modifier2) =
             Some \<lparr>name = trim (js ''handshake'') @ js '' ('' @ getSkinToneName modifier1
                            @ js '' and '' @ getSkinToneName modifier2 @ js '')'',
                   group = trim (js ''People & Body''), skin_tone_support = True,
                   dual_skin_tone_support = Some True,
                   is_variant = Some True, base_emoji = Some (utf16 129309),
                   code_points =
                     stored_points Part_000
                       (parse_code (js ''1F91D'')
                          @ [codePointAt0 modifier1, codePointAt0 modifier2])\<rparr>"
    and l2: "length (dual_tone_variants (utf16 129309) emojiData) = 25"
    by blast+
  from r [THEN bspec, OF m(1)] have 1: "map_of emojiData (utf16 129309 @ utf16 127995) =
        Some \<lparr>name = js ''handshake (light skin tone)'', group = js ''People & Body'',
              skin_tone_support = True, dual_skin_tone_support = None,
              is_variant = Some True, base_emoji = Some (utf16 129309),
              code_points = Some [Some 129309, Some 127995]\<rparr>"
    by (simp add: getSkinToneName_def stored_points_def codePointAt0_def str_defs num_defs)
  from two [THEN bspec, OF m(1), THEN bspec, OF m(2)]
  have 2: "map_of emojiData (utf16 129309 @ utf16 127995 @ utf16 127999) =
        Some \<lparr>name = js ''handshake (light skin tone and dark skin tone)'',
              group = js ''People & Body'',
              skin_tone_support = True, dual_skin_tone_support = Some True,
              is_variant = Some True, base_emoji = Some (utf16 129309),
              code_points = Some [Some 129309, Some 127995, Some 127999]\<rparr>"
    by (simp add: getSkinToneName_def stored_points_def codePointAt0_def str_defs num_defs)
  from c n g s d k m p 1 2 l1 l2 show ?thesis by blast
qed

text \<open>
  C1 as stated fails in three ways. The waving hand followed by the row of its light
  skin tone: the second row's own key is the key of the light variant of the first, its
  record replaces that variant, and four single-tone variants of the waving hand are
  left. A waving hand whose code text has a piece that cannot be read: the parse raises
  and returns no record at all. A waving hand without a group cell: the row is skipped.
\<close>

theorem C1_variant_replaced_counterexample:
  "hasSkinToneSupport Part_000 (trim (js ''waving hand'')) \<and>
   \<not> isl (parseEmojiData Part_000 [waving_row, waving_light_row]) \<and>
   map_of (projr (parseEmojiData Part_000 [waving_row, waving_light_row]))
       (utf16 128075 @ utf16 127995) =
     Some \<lparr>name = js ''waving hand: light skin tone'', group = js ''People & Body'',
           skin_tone_support = True, dual_skin_tone_support = Some False,
           is_variant = None, base_emoji = None,
           code_points = Some [Some 128075, Some 127995]\<rparr> \<and>
   length (single_tone_variants (utf16 128075)
             (projr (parseEmojiData Part_000 [waving_row, waving_light_row]))) = 4 \<and>
   parseEmojiData Part_000 [no_digit_row] = Inl RangeError \<and>
   parseEmojiData Part_000 [waving_without_group] = Inr []"
  by (simp add: waving_row_def waving_light_row_def no_digit_row_def waving_without_group_def
      single_tone_variants_def variants_of_def str_defs num_defs row_defs)

section \<open>Rows that are dual-capable only\<close>

text \<open>
  C9, as the code has it. In \<^verbatim>\<open>part_000\<close> the name \<^verbatim>\<open>family\<close> matches a dual-tone keyword
  and no single-tone keyword. Take a row with its three cells whose trimmed name is like
  that, anywhere in the table, and suppose that \<^verbatim>\<open>parseEmojiData\<close> returns a mapping.
  Then the code text of the row is read as an emoji \<open>e\<close>, the rows before it give a
  mapping of their own, and:
  \<^item> when \<open>e\<close> is not \<^verbatim>\<open>__proto__\<close>, reading the row after them makes one assignment
    only, of the base record with \<open>dual_skin_tone_support\<close> true and
    \<open>skin_tone_support\<close> false at the key \<open>e\<close>, and no variant is written (the
    dual-tone expansion sits inside the single-tone branch);
  \<^item> when moreover no later row assigns the key \<open>e\<close>, the returned mapping holds that
    record at \<open>e\<close>;
  \<^item> when no other row with the emoji \<open>e\<close> is skin-tone-capable, no variant record of
    the returned mapping has \<open>e\<close> as its base.
\<close>

theorem C9_dual_only_in_result:
  assumes "parseEmojiData Part_000 (pre @ r # post) = Inr emojiData"
    and "codeCell r = Some c" and "nameCell r = Some n" and "groupCell r = Some g"
    and "hasDualSkinToneSupport Part_000 (trim n)"
    and "\<not> hasSkinToneSupport Part_000 (trim n)"
  shows "hasDualSkinToneSupport Part_000 (js ''family'') \<and>
     \<not> hasSkinToneSupport Part_000 (js ''family'') \<and>
     (\<exists>e obj0. fromCodePoint (parse_code c) = Inr e \<and>
        parseEmojiData Part_000 pre = Inr obj0 \<and>
        (e \<noteq> proto_key \<longrightarrow>
           parseEmojiData Part_000 (pre @ [r]) =
             Inr (AList.update e
                    \<lparr>name = trim n, group = trim g, skin_tone_support = False,
                     dual_skin_tone_support = Some True, is_variant = None,
                     base_emoji = None, code_points = Some (parse_code c)\<rparr> obj0)) \<and>
        (e \<noteq> proto_key \<and> later_rows_keep Part_000 [e] post \<longrightarrow>
           map_of emojiData e =
             Some \<lparr>name = trim n, group = trim g, skin_tone_support = False,
                   dual_skin_tone_support = Some True, is_variant = None,
                   base_emoji = None, code_points = Some (parse_code c)\<rparr>) \<and>
        (list_all (\<lambda>r'. row_emoji r' \<noteq> Some e \<or> row_variant_keys Part_000 r' = [])
           (pre @ post) \<longrightarrow>
           variants_of e emojiData = []))"
proof (intro conjI)
  show "hasDualSkinToneSupport Part_000 (js ''family'')"
    by (simp add: hasDualSkinToneSupport_def dual_keywords_def str_defs)
  show "\<not> hasSkinToneSupport Part_000 (js ''family'')"
    by (simp add: hasSkinToneSupport_def skin_keywords_def str_defs)
next
  define cps nm grp where "cps = parse_code c" and "nm = trim n" and "grp = trim g"
  from assms(1) have rows: "parse_rows Part_000 (pre @ r # post) [] = Inr emojiData"
    by (simp add: parseEmojiData_def)
  then obtain obj0 obj1 where pre: "parse_rows Part_000 pre [] = Inr obj0"
    and row: "parse_row Part_000 r obj0 = Inr obj1"
    and rest: "parse_rows Part_000 post obj1 = Inr emojiData"
    by (rule parse_rows_split)
  from row assms(2-4) obtain e where e: "fromCodePoint (parse_code c) = Inr e"
    and key: "row_emoji r = Some e"
    and keys: "row_variant_keys Part_000 r = map fst (variant_writes Part_000 e cps nm grp)"
    and obj1: "obj1 = assign_all (row_writes Part_000 e cps nm grp) obj0"
    unfolding cps_def nm_def grp_def by (rule parse_row_read)
  from rows have dist: "distinct (map fst emojiData)"
    by (rule parse_rows_distinct) simp
  from assms(6) have none: "row_variant_keys Part_000 r = []"
    by (simp add: keys variant_writes_def nm_def)
  from assms(5,6) have rec: "base_record Part_000 cps nm grp =
      \<lparr>name = nm, group = grp, skin_tone_support = False,
       dual_skin_tone_support = Some True, is_variant = None,
       base_emoji = None, code_points = Some cps\<rparr>"
    by (simp add: base_record_def stored_points_def nm_def)
  from pre have before: "parseEmojiData Part_000 pre = Inr obj0"
    by (simp add: parseEmojiData_def)
  have step: "parseEmojiData Part_000 (pre @ [r]) =
      Inr (AList.update e
             \<lparr>name = nm, group = grp, skin_tone_support = False,
              dual_skin_tone_support = Some True, is_variant = None,
              base_emoji = None, code_points = Some cps\<rparr> obj0)"
    if ne: "e \<noteq> proto_key"
  proof -
    from assms(6) have "variant_writes Part_000 e cps nm grp = []"
      by (simp add: variant_writes_def nm_def)
    then have "obj1 = obj_put e (base_record Part_000 cps nm grp) obj0"
      by (simp add: obj1 row_writes_def)
    with ne rec have "obj1 = AList.update e
             \<lparr>name = nm, group = grp, skin_tone_support = False,
              dual_skin_tone_support = Some True, is_variant = None,
              base_emoji = None, code_points = Some cps\<rparr> obj0"
      by (simp add: obj_put_def)
    with pre row show ?thesis
      by (simp add: parseEmojiData_def parse_rows_append)
  qed
  have base: "map_of emojiData e =
      Some \<lparr>name = nm, group = grp, skin_tone_support = False,
            dual_skin_tone_support = Some True, is_variant = None,
            base_emoji = None, code_points = Some cps\<rparr>"
    if "e \<noteq> proto_key \<and> later_rows_keep Part_000 [e] post"
  proof -
    from that have ne: "e \<noteq> proto_key" and keep: "later_rows_keep Part_000 [e] post"
      by blast+
    from rest keep have "map_of emojiData e = map_of obj1 e"
      by (rule kept_rows) simp
    also from ne have "\<dots> = Some (base_record Part_000 cps nm grp)"
      using after_row_lookup [OF obj1, of e] by (simp add: base_not_variant_key)
    finally show ?thesis
      by (simp add: rec)
  qed
  have zero: "variants_of e emojiData = []"
    if others: "list_all (\<lambda>r'. row_emoji r' \<noteq> Some e \<or> row_variant_keys Part_000 r' = [])
        (pre @ post)"
  proof -
    from others none
    have "list_all (\<lambda>r'. row_emoji r' \<noteq> Some e \<or> row_variant_keys Part_000 r' = [])
        (pre @ r # post)"
      by simp
    then have "\<forall>k d. map_of emojiData k = Some d \<and> is_variant_record d \<longrightarrow>
        base_emoji d \<noteq> Some e"
      using parse_rows_no_variant [OF rows, of e] by simp
    then have "\<forall>(k, d) \<in> set emojiData. \<not> (is_variant_record d \<and> base_emoji d = Some e)"
      using dist by (auto dest!: map_of_is_SomeI)
    then show ?thesis
      by (auto simp: variants_of_def is_variant_record_def filter_empty_conv)
  qed
  from e before step base zero
  show "\<exists>e obj0. fromCodePoint (parse_code c) = Inr e \<and>
        parseEmojiData Part_000 pre = Inr obj0 \<and>
        (e \<noteq> proto_key \<longrightarrow>
           parseEmojiData Part_000 (pre @ [r]) =
             Inr (AList.update e
                    \<lparr>name = trim n, group = trim g, skin_tone_support = False,
                     dual_skin_tone_support = Some True, is_variant = None,
                     base_emoji = None, code_points = Some (parse_code c)\<rparr> obj0)) \<and>
        (e \<noteq> proto_key \<and> later_rows_keep Part_000 [e] post \<longrightarrow>
           map_of emojiData e =
             Some \<lparr>name = trim n, group = trim g, skin_tone_support = False,
                   dual_skin_tone_support = Some True, is_variant = None,
                   base_emoji = None, code_points = Some (parse_code c)\<rparr>) \<and>
        (list_all (\<lambda>r'. row_emoji r' \<noteq> Some e \<or> row_variant_keys Part_000 r' = [])
           (pre @ post) \<longrightarrow>
           variants_of e emojiData = [])"
    unfolding cps_def nm_def grp_def by blast
qed

text \<open>The row \<^verbatim>\<open>1F46A family\<close> between the waving hand and the grinning face.\<close>

theorem C9_family_witness:
  "codeCell family_row = Some (js ''1F46A'') \<and> nameCell family_row = Some (js ''family'') \<and>
   groupCell family_row = Some (js ''People & Body'') \<and>
   hasDualSkinToneSupport Part_000 (trim (js ''family'')) \<and>
   \<not> hasSkinToneSupport Part_000 (trim (js ''family'')) \<and>
   utf16 128106 \<noteq> proto_key \<and>
   later_rows_keep Part_000 [utf16 128106] [grinning_row] \<and>
   list_all (\<lambda>r'. row_emoji r' \<noteq> Some (utf16 128106) \<or> row_variant_keys Part_000 r' = [])
     ([waving_row] @ [grinning_row]) \<and>
   (\<exists>emojiData.
      parseEmojiData Part_000 ([waving_row] @ family_row # [grinning_row]) = Inr emojiData \<and>
      map_of emojiData (utf16 128106) =
        Some \<lparr>name = js ''family'', group = js ''People & Body'', skin_tone_support = False,
              dual_skin_tone_support = Some True, is_variant = None, base_emoji = None,
              code_points = Some [Some 128106]\<rparr> \<and>
      variants_of (utf16 128106) emojiData = [])"
proof -
  have c: "codeCell family_row = Some (js ''1F46A'')"
    and n: "nameCell family_row = Some (js ''family'')"
    and g: "groupCell family_row = Some (js ''People & Body'')"
    by (simp_all add: family_row_def)
  have e: "fromCodePoint (parse_code (js ''1F46A'')) = Inr (utf16 128106)"
    by (simp add: str_defs num_defs)
  have d: "hasDualSkinToneSupport Part_000 (trim (js ''family''))"
    by (simp add: hasDualSkinToneSupport_def dual_keywords_def str_defs)
  have s: "\<not> hasSkinToneSupport Part_000 (trim (js ''family''))"
    by (simp add: hasSkinToneSupport_def skin_keywords_def str_defs)
  have ne: "utf16 128106 \<noteq> proto_key"
    by (simp add: proto_key_def js_def utf16_def)
  have k: "later_rows_keep Part_000 [utf16 128106] [grinning_row]"
    by (simp add: variant_defs grinning_row_def hasSkinToneSupport_def
        hasDualSkinToneSupport_def skin_keywords_def dual_keywords_def
        SKIN_TONE_MODIFIERS_def str_defs num_defs)
  have o: "list_all (\<lambda>r'. row_emoji r' \<noteq> Some (utf16 128106) \<or>
      row_variant_keys Part_000 r' = []) ([waving_row] @ [grinning_row])"
    by (simp add: variant_defs waving_row_def grinning_row_def str_defs num_defs)
  have "\<not> list_ex unreadable_row ([waving_row] @ family_row # [grinning_row])"
    by (simp add: variant_defs waving_row_def family_row_def grinning_row_def
        str_defs num_defs)
  then obtain emojiData where
    p: "parseEmojiData Part_000 ([waving_row] @ family_row # [grinning_row]) = Inr emojiData"
    using parseEmojiData_returns by blast
  from C9_dual_only_in_result [OF p c n g d s] e ne k o
  have "map_of emojiData (utf16 128106) =
        Some \<lparr>name = trim (js ''family''), group = trim (js ''People & Body''),
              skin_tone_support = False,
              dual_skin_tone_support = Some True, is_variant = None, base_emoji = None,
              code_points = Some (parse_code (js ''1F46A''))\<rparr>"
    and z: "variants_of (utf16 128106) emojiData = []"
    by auto
  then have b: "map_of emojiData (utf16 128106) =
        Some \<lparr>name = js ''family'', group = js ''People & Body'', skin_tone_support = False,
              dual_skin_tone_support = Some True, is_variant = None, base_emoji = None,
              code_points = Some [Some 128106]\<rparr>"
    by (simp add: str_defs num_defs)
  from c n g d s ne k o p b z show ?thesis by blast
qed

text \<open>
  C9 as stated fails in three ways. A family whose code text is written \<^verbatim>\<open>U+1F46A\<close>:
  the parse raises and returns no record at all. A family without a group cell: the row
  is skipped. And the family followed by a row with the same code whose name is
  skin-tone-capable: the later record replaces the base record, so the key holds a
  record with \<open>skin_tone_support\<close> true, and five variants name it as their base.
\<close>

theorem C9_not_in_result_counterexample:
  "hasDualSkinToneSupport Part_000 (trim (js ''family'')) \<and>
   \<not> hasSkinToneSupport Part_000 (trim (js ''family'')) \<and>
   parseEmojiData Part_000 [family_unreadable_row] = Inl RangeError \<and>
   parseEmojiData Part_000 [family_without_group] = Inr [] \<and>
   \<not> isl (parseEmojiData Part_000 [family_row, people_row]) \<and>
   map_of (projr (parseEmojiData Part_000 [family_row, people_row])) (utf16 128106) =
     Some \<lparr>name = js ''people'', group = js ''People & Body'',
           skin_tone_support = True, dual_skin_tone_support = Some False,
           is_variant = None, base_emoji = None, code_points = Some [Some 128106]\<rparr> \<and>
   length (variants_of (utf16 128106)
             (projr (parseEmojiData Part_000 [family_row, people_row]))) = 5"
  by (simp add: family_row_def family_unreadable_row_def family_without_group_def
      people_row_def variants_of_def str_defs num_defs row_defs)

section \<open>The groups\<close>


lemma set_first_occurrences [simp]: "set (first_occurrences xs) = set xs"
  by (simp add: first_occurrences_def)

lemma distinct_first_occurrences [simp]: "distinct (first_occurrences xs)"
  by (simp add: first_occurrences_def)

lemma first_occurrences_Nil [simp]: "first_occurrences [] = []"
  by (simp add: first_occurrences_def)


lemma distinct_created_groups [simp]: "distinct (created_groups es)"
  by (simp add: created_groups_def)














subsection \<open>The order in which an object lists its properties\<close>

lemma set_Object_entries [simp]: "set (Object_entries obj) = set obj"
  by (auto simp: Object_entries_def)



lemma set_js_key_order [simp]: "set (js_key_order ks) = set ks"
  by (auto simp: js_key_order_def)




















end
